theory Spec2Isabelle
  imports
    Main
    "HOL-Library.AList"
    "HOL-Library.Char_ord"
    "HOL-Library.List_Lexorder"
begin

section \<open>The context store\<close>

text \<open>
  The service keeps its contexts in one JSON document (\<^verbatim>\<open>contexts.json\<close>), which the Go
  code reads into a \<^verbatim>\<open>map[string]interface{}\<close> and inspects with type assertions.
  A JSON object is an association list; the Go map it denotes is \<open>map_of\<close> of that
  list, a lookup \<^verbatim>\<open>m[k]\<close> is \<open>map_of m k\<close>, an assignment \<^verbatim>\<open>m[k] = v\<close> is
  \<open>AList.update k v m\<close> and \<^verbatim>\<open>delete(m, k)\<close> is \<open>AList.delete k m\<close>.
\<close>

datatype json =
    JNull
  | JBool bool
  | JNum int
  | JStr string
  | JArr "json list"
  | JObj "(string \<times> json) list"

type_synonym jobj = "(string \<times> json) list"

text \<open>The type assertions \<^verbatim>\<open>v.(map[string]interface{})\<close> and \<^verbatim>\<open>v.(string)\<close> on the
  result of a map lookup; \<open>None\<close> is \<^verbatim>\<open>ok == false\<close>.\<close>

fun as_map :: "json option \<Rightarrow> jobj option" where
  "as_map (Some (JObj m)) = Some m"
| "as_map _ = None"

fun as_string :: "json option \<Rightarrow> string option" where
  "as_string (Some (JStr s)) = Some s"
| "as_string _ = None"

text \<open>\<^verbatim>\<open>s, _ := v.(string)\<close>: the zero value, the empty string, when the assertion fails.\<close>

definition string_or_empty :: "json option \<Rightarrow> string" where
  "string_or_empty v = (case as_string v of Some s \<Rightarrow> s | None \<Rightarrow> [])"

text \<open>
  The errors of the service. The Go code builds them with \<^verbatim>\<open>fmt.Errorf\<close>; each
  constructor stands for one message.
  \<^item> \<open>IOError\<close>: an error of \<^verbatim>\<open>os.ReadFile\<close>, \<^verbatim>\<open>json.Unmarshal\<close> or
    \<^verbatim>\<open>os.WriteFile\<close>, passed through unchanged;
  \<^item> \<open>NoContexts\<close>: "no contexts found";
  \<^item> \<open>NotFound name\<close>: "context %s not found";
  \<^item> \<open>InvalidHost name\<close>: "invalid host configuration for context %s";
  \<^item> \<open>ClientError\<close>: "failed to create docker client: %v";
  \<^item> \<open>InUse name\<close>: "cannot delete current context: %s";
  \<^item> \<open>RemoteError\<close>: an error returned by a call on the backend client;
  \<^item> \<open>EOF\<close> and \<open>NetError\<close>: \<^verbatim>\<open>io.EOF\<close> and any other error of a read or write on
    the operator connection or on the process stream;
  \<^item> \<open>DefaultContext\<close> and \<open>InvalidContexts\<close>: "cannot delete default context" and
    "invalid contexts configuration", two messages of the older single-client service.
\<close>

datatype error =
    IOError
  | NoContexts
  | NotFound string
  | InvalidHost string
  | ClientError
  | InUse string
  | RemoteError
  | EOF
  | NetError
  | DefaultContext
  | InvalidContexts

text \<open>\<^verbatim>\<open>ContextConfig\<close>, field for field.\<close>

record ContextConfig =
  Name :: string
  Type :: string
  Host :: string
  Current :: bool

text \<open>A \<^verbatim>\<open>*client.Client\<close>: the identity of the pointer (the number of clients built
  before it) and the host it was configured with.\<close>

record client =
  cid :: nat
  bound_host :: string

text \<open>The file \<^verbatim>\<open>contexts.json\<close>: absent, present but not readable as a JSON object
  (\<^verbatim>\<open>os.ReadFile\<close> or \<^verbatim>\<open>json.Unmarshal\<close> fails), or a document. A top-level
  \<^verbatim>\<open>null\<close> unmarshals to a nil map, which every function below reads like the empty
  object \<open>Doc []\<close>.\<close>

datatype cfg_file = Absent | Unreadable | Doc jobj

text \<open>What the service does to the world outside its own memory, in the order it does it.\<close>

datatype event =
    EvWrite jobj
  | EvSetenv string
  | EvNewClient client
  | EvCache string client
  | EvExecCreate nat string
  | EvExecAttach nat string
  | EvExecStart nat string
  | EvExecResize nat string nat nat

text \<open>
  The state the service runs in: its own \<^verbatim>\<open>clients\<close> map, the file, the environment
  variable \<^verbatim>\<open>DOCKER_HOST\<close>, and the answers of the environment:
  \<^item> \<open>writable\<close>: whether \<^verbatim>\<open>os.WriteFile\<close> on the configuration path succeeds (a
    failed write is taken to leave the file as it was);
  \<^item> \<open>new_ok host\<close>: whether \<^verbatim>\<open>client.NewClientWithOpts\<close> succeeds for that host;
  \<^item> \<open>remote_ok k\<close>: whether the backend call issued when \<open>k\<close> events have been logged
    succeeds;
  \<^item> \<open>exec_ids k\<close>: the identifier the backend gives to an exec instance created when
    \<open>k\<close> events have been logged.
  \<open>created\<close> counts the clients built so far and \<open>log\<close> records the events.
\<close>

record world =
  clients :: "string \<rightharpoonup> client"
  store :: cfg_file
  docker_host :: string
  writable :: bool
  new_ok :: "string \<Rightarrow> bool"
  remote_ok :: "nat \<Rightarrow> bool"
  exec_ids :: "nat \<Rightarrow> string"
  created :: nat
  log :: "event list"

definition emit :: "event \<Rightarrow> world \<Rightarrow> world" where
  "emit e w = w\<lparr>log := log w @ [e]\<rparr>"

text \<open>The default document \<^verbatim>\<open>readConfig\<close> creates when the file does not exist.\<close>

definition defaultConfig :: jobj where
  "defaultConfig = [(''contexts'', JObj []), (''current-context'', JStr [])]"

text \<open>\<^verbatim>\<open>readConfig\<close>. The path computation of \<^verbatim>\<open>getConfigPath\<close> is left out; marshalling
  a document of JSON values cannot fail.\<close>

definition readConfig :: "world \<Rightarrow> (error + jobj) \<times> world" where
  "readConfig w =
     (case store w of
        Absent \<Rightarrow>
          if writable w
          then (Inr defaultConfig, emit (EvWrite defaultConfig) (w\<lparr>store := Doc defaultConfig\<rparr>))
          else (Inl IOError, w)
      | Unreadable \<Rightarrow> (Inl IOError, w)
      | Doc config \<Rightarrow> (Inr config, w))"

text \<open>\<^verbatim>\<open>saveConfig\<close>: the whole document replaces the file.\<close>

definition saveConfig :: "jobj \<Rightarrow> world \<Rightarrow> error option \<times> world" where
  "saveConfig config w =
     (if writable w
      then (None, emit (EvWrite config) (w\<lparr>store := Doc config\<rparr>))
      else (Some IOError, w))"

section \<open>The client registry\<close>

text \<open>\<^verbatim>\<open>client.NewClientWithOpts(client.WithHost(host), ...)\<close>: a new client, distinct from
  every client built before, or an error.\<close>

definition NewClientWithOpts :: "string \<Rightarrow> world \<Rightarrow> (error + client) \<times> world" where
  "NewClientWithOpts host w =
     (if new_ok w host
      then (let cli = \<lparr>cid = created w, bound_host = host\<rparr>
            in (Inr cli, emit (EvNewClient cli) (w\<lparr>created := Suc (created w)\<rparr>)))
      else (Inl ClientError, w))"

text \<open>\<^verbatim>\<open>client.FromEnv\<close> takes the host from \<^verbatim>\<open>DOCKER_HOST\<close>; when the variable is empty
  the client library keeps its default host.\<close>

definition DefaultDockerHost :: string where
  "DefaultDockerHost = ''unix:///var/run/docker.sock''"

definition NewClientFromEnv :: "world \<Rightarrow> (error + client) \<times> world" where
  "NewClientFromEnv w =
     NewClientWithOpts (if docker_host w = [] then DefaultDockerHost else docker_host w) w"

definition Setenv_DOCKER_HOST :: "string \<Rightarrow> world \<Rightarrow> world" where
  "Setenv_DOCKER_HOST v w = emit (EvSetenv v) (w\<lparr>docker_host := v\<rparr>)"

text \<open>The lookups \<^verbatim>\<open>getClient\<close> makes in the configuration it has read: the object
  under \<^verbatim>\<open>contexts\<close>, in it the object under the name, in it the string under
  \<^verbatim>\<open>host\<close>, which must not be empty. Then \<^verbatim>\<open>getClient\<close> itself, with the assignment
  \<^verbatim>\<open>s.clients[contextName] = cli\<close> as \<open>cacheClient\<close>.\<close>

definition lookupHost :: "string \<Rightarrow> jobj \<Rightarrow> error + string" where
  "lookupHost contextName config =
     (case as_map (map_of config ''contexts'') of
        None \<Rightarrow> Inl NoContexts
      | Some contexts \<Rightarrow>
          (case as_map (map_of contexts contextName) of
             None \<Rightarrow> Inl (NotFound contextName)
           | Some contextConfig \<Rightarrow>
               (let host = string_or_empty (map_of contextConfig ''host'')
                in if host = [] then Inl (InvalidHost contextName) else Inr host)))"

definition cacheClient :: "string \<Rightarrow> client \<Rightarrow> world \<Rightarrow> world" where
  "cacheClient contextName cli w =
     emit (EvCache contextName cli) (w\<lparr>clients := (clients w)(contextName \<mapsto> cli)\<rparr>)"

definition getClient :: "string \<Rightarrow> world \<Rightarrow> (error + client) \<times> world" where
  "getClient contextName w =
     (case clients w contextName of
        Some cli \<Rightarrow> (Inr cli, w)
      | None \<Rightarrow>
          (case readConfig w of
             (Inl err, w1) \<Rightarrow> (Inl err, w1)
           | (Inr config, w1) \<Rightarrow>
               (case lookupHost contextName config of
                  Inl err \<Rightarrow> (Inl err, w1)
                | Inr host \<Rightarrow>
                    (case NewClientWithOpts host w1 of
                       (Inl err, w2) \<Rightarrow> (Inl ClientError, w2)
                     | (Inr cli, w2) \<Rightarrow> (Inr cli, cacheClient contextName cli w2)))))"

text \<open>\<^verbatim>\<open>DeleteContext\<close> of the registry. \<^verbatim>\<open>contexts\<close> is the map inside \<^verbatim>\<open>config\<close>, so the
  \<^verbatim>\<open>delete\<close> changes the document that \<^verbatim>\<open>saveConfig\<close> then writes.\<close>

definition DeleteContext :: "string \<Rightarrow> world \<Rightarrow> error option \<times> world" where
  "DeleteContext name w =
     (case readConfig w of
        (Inl err, w1) \<Rightarrow> (Some err, w1)
      | (Inr config, w1) \<Rightarrow>
          if as_string (map_of config ''current-context'') = Some name
          then (Some (InUse name), w1)
          else
            (case as_map (map_of config ''contexts'') of
               None \<Rightarrow> (Some NoContexts, w1)
             | Some contexts \<Rightarrow>
                 if map_of contexts name = None
                 then (Some (NotFound name), w1)
                 else saveConfig
                        (AList.update ''contexts'' (JObj (AList.delete name contexts)) config) w1))"

text \<open>
  The repository also holds an older service with a single client and no registry
  (\<^verbatim>\<open>backend/internal/service/docker.go\<close>), which the handler does not call. Its
  \<^verbatim>\<open>DeleteContext\<close> refuses the name \<^verbatim>\<open>default\<close> only; when the deleted context is the
  current one it makes \<^verbatim>\<open>default\<close> the current context and unsets \<^verbatim>\<open>DOCKER_HOST\<close>. It
  reads and writes \<^verbatim>\<open>config.json\<close> of the docker command line; the file of the world
  stands for it here, and the variable \<^verbatim>\<open>DOCKER_CONTEXT\<close> it also sets is left out.
\<close>

definition DeleteContext_single :: "string \<Rightarrow> world \<Rightarrow> error option \<times> world" where
  "DeleteContext_single name w =
     (if name = ''default'' then (Some DefaultContext, w)
      else
        (case store w of
           Absent \<Rightarrow> (Some IOError, w)
         | Unreadable \<Rightarrow> (Some IOError, w)
         | Doc config \<Rightarrow>
             (case as_map (map_of config ''contexts'') of
                None \<Rightarrow> (Some InvalidContexts, w)
              | Some contexts \<Rightarrow>
                  if map_of contexts name = None
                  then (Some (NotFound name), w)
                  else
                    (let deleted = AList.update ''contexts''
                           (JObj (AList.delete name contexts)) config
                     in if as_string (map_of config ''current-context'') = Some name
                        then saveConfig
                               (AList.update ''current-context'' (JStr ''default'') deleted)
                               (w\<lparr>docker_host := []\<rparr>)
                        else saveConfig deleted w))))"

text \<open>\<^verbatim>\<open>buildDockerHost\<close> and \<^verbatim>\<open>UpdateContextConfig\<close>. The entry written for the context
  has the two keys \<^verbatim>\<open>type\<close> and \<^verbatim>\<open>host\<close>.\<close>

definition buildDockerHost :: "ContextConfig \<Rightarrow> string" where
  "buildDockerHost config = Host config"

definition contextEntry :: "ContextConfig \<Rightarrow> json" where
  "contextEntry config = JObj [(''type'', JStr (Type config)), (''host'', JStr (Host config))]"

definition UpdateContextConfig :: "string \<Rightarrow> ContextConfig \<Rightarrow> world \<Rightarrow> error option \<times> world" where
  "UpdateContextConfig name config w =
     (case readConfig w of
        (Inl err, w1) \<Rightarrow> (Some err, w1)
      | (Inr currentConfig, w1) \<Rightarrow>
          (case as_map (map_of currentConfig ''contexts'') of
             None \<Rightarrow> (Some NoContexts, w1)
           | Some contexts \<Rightarrow>
               if map_of contexts name = None
               then (Some (NotFound name), w1)
               else
                 (let updated = AList.update ''contexts''
                        (JObj (AList.update name (contextEntry config) contexts)) currentConfig
                  in if as_string (map_of currentConfig ''current-context'') = Some name
                     then
                       (case NewClientFromEnv (Setenv_DOCKER_HOST (buildDockerHost config) w1) of
                          (Inl err, w2) \<Rightarrow> (Some ClientError, w2)
                        | (Inr cli, w2) \<Rightarrow> saveConfig updated (cacheClient name cli w2))
                     else saveConfig updated w1)))"

text \<open>
  \<^verbatim>\<open>ListContexts\<close>. The loop body builds one \<^verbatim>\<open>ContextConfig\<close> per entry whose value is
  an object and either remembers it as the current one or appends it to the slice.
  Go visits the entries of a map in an unspecified order, so the order is a parameter:
  \<open>visit m\<close> lists the entries of the map \<open>m\<close> in the order the \<^verbatim>\<open>range\<close> statement
  yields them. \<^verbatim>\<open>sort.Slice\<close> with the comparison \<^verbatim>\<open>Name < Name\<close> is \<open>sort_key Name\<close>;
  Go compares strings byte by byte, which is the lexicographic order on \<open>string\<close>.
\<close>

definition mkContextConfig :: "string \<Rightarrow> string \<Rightarrow> jobj \<Rightarrow> ContextConfig" where
  "mkContextConfig currentCtx name contextConfig =
     \<lparr>Name = name,
      Type = string_or_empty (map_of contextConfig ''type''),
      Host = string_or_empty (map_of contextConfig ''host''),
      Current = (name = currentCtx)\<rparr>"

fun rangeContexts ::
  "string \<Rightarrow> (string \<times> json) list \<Rightarrow> ContextConfig option \<times> ContextConfig list
     \<Rightarrow> ContextConfig option \<times> ContextConfig list" where
  "rangeContexts currentCtx [] acc = acc"
| "rangeContexts currentCtx ((name, ctx) # rest) (currentConfig, contextConfigs) =
     (case as_map (Some ctx) of
        None \<Rightarrow> rangeContexts currentCtx rest (currentConfig, contextConfigs)
      | Some contextConfig \<Rightarrow>
          (let config = mkContextConfig currentCtx name contextConfig
           in if name = currentCtx
              then rangeContexts currentCtx rest (Some config, contextConfigs)
              else rangeContexts currentCtx rest (currentConfig, contextConfigs @ [config])))"

definition ListContexts :: "(jobj \<Rightarrow> jobj) \<Rightarrow> world \<Rightarrow> (error + ContextConfig list) \<times> world" where
  "ListContexts visit w =
     (case readConfig w of
        (Inl err, w1) \<Rightarrow> (Inl err, w1)
      | (Inr config, w1) \<Rightarrow>
          (let currentCtx = string_or_empty (map_of config ''current-context'')
           in case as_map (map_of config ''contexts'') of
                None \<Rightarrow> (Inl NoContexts, w1)
              | Some contextsMap \<Rightarrow>
                  (case rangeContexts currentCtx (visit contextsMap) (None, []) of
                     (currentConfig, contextConfigs) \<Rightarrow>
                       (let sorted = sort_key Name contextConfigs
                        in (Inr (case currentConfig of
                                   None \<Rightarrow> sorted
                                 | Some c \<Rightarrow> c # sorted), w1)))))"

text \<open>A visiting order is valid for a map when it lists every entry of the map once.\<close>

definition valid_visit :: "(jobj \<Rightarrow> jobj) \<Rightarrow> jobj \<Rightarrow> bool" where
  "valid_visit visit m \<longleftrightarrow> distinct (map fst (visit m)) \<and> map_of (visit m) = map_of m"

text \<open>Every client in the registry was built by an earlier call: the invariant of the
  \<^verbatim>\<open>clients\<close> map.\<close>

definition wf_world :: "world \<Rightarrow> bool" where
  "wf_world w \<longleftrightarrow> (\<forall>n c. clients w n = Some c \<longrightarrow> cid c < created w)"

subsection \<open>Example worlds\<close>

text \<open>The example of the specification: a context \<^verbatim>\<open>prod\<close> at \<^verbatim>\<open>tcp://10.0.0.5:2375\<close>, here the
  current one, beside a second context \<^verbatim>\<open>staging\<close>.\<close>

definition prod_config :: jobj where
  "prod_config =
     [(''contexts'', JObj
         [(''staging'', JObj [(''type'', JStr ''tcp''), (''host'', JStr ''tcp://10.0.0.7:2375'')]),
          (''prod'', JObj [(''type'', JStr ''tcp''), (''host'', JStr ''tcp://10.0.0.5:2375'')])]),
      (''current-context'', JStr ''prod'')]"

definition prod_world :: world where
  "prod_world =
     \<lparr>clients = Map.empty, store = Doc prod_config, docker_host = [], writable = True,
      new_ok = (\<lambda>h. True), remote_ok = (\<lambda>k. True), exec_ids = (\<lambda>k. ''exec-1''),
      created = 0, log = []\<rparr>"

definition prod_update :: ContextConfig where
  "prod_update = \<lparr>Name = ''prod'', Type = ''tcp'', Host = ''tcp://10.0.0.6:2375'', Current = True\<rparr>"

text \<open>The world after a first \<open>getClient\<close> for \<^verbatim>\<open>staging\<close>, the world after the context
  has then been deleted, and the example world with a configuration file that cannot be
  written.\<close>

definition staging_cached :: world where
  "staging_cached = snd (getClient ''staging'' prod_world)"

definition staging_deleted :: world where
  "staging_deleted = snd (DeleteContext ''staging'' staging_cached)"

definition readonly_world :: world where
  "readonly_world = prod_world\<lparr>writable := False\<rparr>"

text \<open>The example world with a backend that refuses every call, and the world after
  \<^verbatim>\<open>prod\<close> has been updated there.\<close>

definition dead_backend_world :: world where
  "dead_backend_world = prod_world\<lparr>remote_ok := (\<lambda>k. False)\<rparr>"

definition dead_updated :: world where
  "dead_updated = snd (UpdateContextConfig ''prod'' prod_update dead_backend_world)"

text \<open>The example world while no client can be built for any host.\<close>

definition unreachable_world :: world where
  "unreachable_world = prod_world\<lparr>new_ok := (\<lambda>h. False)\<rparr>"

section \<open>Overlapping calls of \<open>getClient\<close>\<close>

text \<open>
  \<^verbatim>\<open>getClient\<close> takes no lock, and the HTTP server runs each request in a goroutine of
  its own, so two calls can overlap. To follow such runs the function is cut into its
  statements: the lookup in \<^verbatim>\<open>s.clients\<close>, the reading of the configuration, the
  construction of the client, the assignment to \<^verbatim>\<open>s.clients\<close>. A thread is the
  statement it has reached; a schedule names, step by step, the thread that runs next.
\<close>

datatype gc_pc = GC_Check | GC_Read | GC_New string | GC_Store client | GC_Done "error + client"

fun gc_step :: "string \<Rightarrow> gc_pc \<Rightarrow> world \<Rightarrow> gc_pc \<times> world" where
  "gc_step contextName GC_Check w =
     (case clients w contextName of
        Some cli \<Rightarrow> (GC_Done (Inr cli), w)
      | None \<Rightarrow> (GC_Read, w))"
| "gc_step contextName GC_Read w =
     (case readConfig w of
        (Inl err, w1) \<Rightarrow> (GC_Done (Inl err), w1)
      | (Inr config, w1) \<Rightarrow>
          (case lookupHost contextName config of
             Inl err \<Rightarrow> (GC_Done (Inl err), w1)
           | Inr host \<Rightarrow> (GC_New host, w1)))"
| "gc_step contextName (GC_New host) w =
     (case NewClientWithOpts host w of
        (Inl err, w2) \<Rightarrow> (GC_Done (Inl ClientError), w2)
      | (Inr cli, w2) \<Rightarrow> (GC_Store cli, w2))"
| "gc_step contextName (GC_Store cli) w = (GC_Done (Inr cli), cacheClient contextName cli w)"
| "gc_step contextName (GC_Done r) w = (GC_Done r, w)"

definition step_thread :: "string \<Rightarrow> nat \<Rightarrow> gc_pc list \<times> world \<Rightarrow> gc_pc list \<times> world" where
  "step_thread contextName i st =
     (case st of (pcs, w) \<Rightarrow>
        if i < length pcs
        then (case gc_step contextName (pcs ! i) w of (pc', w') \<Rightarrow> (pcs[i := pc'], w'))
        else (pcs, w))"

definition run_schedule :: "string \<Rightarrow> nat list \<Rightarrow> gc_pc list \<times> world \<Rightarrow> gc_pc list \<times> world" where
  "run_schedule contextName sched st = fold (step_thread contextName) sched st"

text \<open>\<open>n\<close> calls of \<open>getClient\<close> one after the other.\<close>

fun getClients :: "string \<Rightarrow> nat \<Rightarrow> world \<Rightarrow> (error + client) list \<times> world" where
  "getClients contextName 0 w = ([], w)"
| "getClients contextName (Suc n) w =
     (case getClient contextName w of
        (r, w1) \<Rightarrow> (case getClients contextName n w1 of (rs, w2) \<Rightarrow> (r # rs, w2)))"


section \<open>Auxiliary definitions for \<open>ListContexts\<close>\<close>

text \<open>The slice the loop of \<open>ListContexts\<close> builds from the entries it visits: the
  object-valued entries other than the current one, in the order visited.\<close>

fun others :: "string \<Rightarrow> (string \<times> json) list \<Rightarrow> ContextConfig list" where
  "others currentCtx [] = []"
| "others currentCtx ((name, ctx) # rest) =
     (case as_map (Some ctx) of
        None \<Rightarrow> others currentCtx rest
      | Some contextConfig \<Rightarrow>
          if name = currentCtx then others currentCtx rest
          else mkContextConfig currentCtx name contextConfig # others currentCtx rest)"

text \<open>A configuration with three contexts, \<^verbatim>\<open>prod\<close> being the current one.\<close>

definition list_config :: jobj where
  "list_config =
     [(''contexts'', JObj
         [(''staging'', JObj [(''type'', JStr ''tcp''), (''host'', JStr ''tcp://10.0.0.7:2375'')]),
          (''prod'', JObj [(''type'', JStr ''tcp''), (''host'', JStr ''tcp://10.0.0.5:2375'')]),
          (''dev'', JObj [(''type'', JStr ''socket''), (''host'', JStr ''unix:///var/run/docker.sock'')])]),
      (''current-context'', JStr ''prod'')]"

definition list_world :: world where
  "list_world = prod_world\<lparr>store := Doc list_config\<rparr>"


section \<open>The exec calls of the service\<close>

text \<open>A call on the backend client. The call is logged whether it succeeds or not; the
  environment decides its outcome.\<close>

definition remote_call :: "event \<Rightarrow> world \<Rightarrow> error option \<times> world" where
  "remote_call ev w =
     ((if remote_ok w (length (log w)) then None else Some RemoteError), emit ev w)"

text \<open>The conversion \<^verbatim>\<open>uint(height)\<close> of a Go \<^verbatim>\<open>int\<close> (64 bits): negative values wrap.\<close>

definition uint :: "int \<Rightarrow> nat" where
  "uint i = nat (i mod 2 ^ 64)"

text \<open>\<^verbatim>\<open>CreateExec\<close>, \<^verbatim>\<open>AttachExec\<close>, \<^verbatim>\<open>StartExec\<close> and \<^verbatim>\<open>ResizeExec\<close>: each asks
  \<open>getClient\<close> for the client of the context and makes one call on it. The connection
  \<^verbatim>\<open>AttachExec\<close> returns is the process stream of the session, modelled with the session
  below.\<close>

definition CreateExec :: "string \<Rightarrow> string \<Rightarrow> world \<Rightarrow> (error + string) \<times> world" where
  "CreateExec contextName containerID w =
     (case getClient contextName w of
        (Inl err, w1) \<Rightarrow> (Inl err, w1)
      | (Inr cli, w1) \<Rightarrow>
          (case remote_call (EvExecCreate (cid cli) containerID) w1 of
             (Some err, w2) \<Rightarrow> (Inl err, w2)
           | (None, w2) \<Rightarrow> (Inr (exec_ids w1 (length (log w1))), w2)))"

definition AttachExec :: "string \<Rightarrow> string \<Rightarrow> world \<Rightarrow> error option \<times> world" where
  "AttachExec contextName execID w =
     (case getClient contextName w of
        (Inl err, w1) \<Rightarrow> (Some err, w1)
      | (Inr cli, w1) \<Rightarrow> remote_call (EvExecAttach (cid cli) execID) w1)"

definition StartExec :: "string \<Rightarrow> string \<Rightarrow> world \<Rightarrow> error option \<times> world" where
  "StartExec contextName execID w =
     (case getClient contextName w of
        (Inl err, w1) \<Rightarrow> (Some err, w1)
      | (Inr cli, w1) \<Rightarrow> remote_call (EvExecStart (cid cli) execID) w1)"

definition ResizeExec :: "string \<Rightarrow> string \<Rightarrow> int \<Rightarrow> int \<Rightarrow> world \<Rightarrow> error option \<times> world" where
  "ResizeExec contextName execID height width w =
     (case getClient contextName w of
        (Inl err, w1) \<Rightarrow> (Some err, w1)
      | (Inr cli, w1) \<Rightarrow>
          remote_call (EvExecResize (cid cli) execID (uint height) (uint width)) w1)"

section \<open>The session bridge\<close>

text \<open>
  \<^verbatim>\<open>ExecContainer\<close> holds the operator connection \<^verbatim>\<open>ws\<close> (a websocket) and the process
  stream \<^verbatim>\<open>hijackedResp\<close>. A session records what has been written to either, whether
  either has been closed, what has been printed with \<^verbatim>\<open>log.Printf\<close>, and the world of
  the service. The environment decides which writes succeed: \<open>ws_ok k\<close> tells whether
  the write on the operator connection succeeds when \<open>k\<close> frames have been accepted,
  \<open>h_ok k\<close> the same for the process stream. A write on a closed connection fails.
\<close>

definition TextMessage :: int where
  "TextMessage = 1"

definition BinaryMessage :: int where
  "BinaryMessage = 2"

record session =
  svc :: world
  ws_written :: "(int \<times> string) list"
  ws_ok :: "nat \<Rightarrow> bool"
  ws_closed :: bool
  h_written :: "string list"
  h_ok :: "nat \<Rightarrow> bool"
  h_closed :: bool
  printed :: "string list"

text \<open>\<^verbatim>\<open>ws.WriteMessage(messageType, data)\<close> and \<^verbatim>\<open>hijackedResp.Write(data)\<close>.\<close>

definition WriteMessage :: "int \<Rightarrow> string \<Rightarrow> session \<Rightarrow> error option \<times> session" where
  "WriteMessage messageType data s =
     (if \<not> ws_closed s \<and> ws_ok s (length (ws_written s))
      then (None, s\<lparr>ws_written := ws_written s @ [(messageType, data)]\<rparr>)
      else (Some NetError, s))"

definition Write_h :: "string \<Rightarrow> session \<Rightarrow> error option \<times> session" where
  "Write_h data s =
     (if \<not> h_closed s \<and> h_ok s (length (h_written s))
      then (None, s\<lparr>h_written := h_written s @ [data]\<rparr>)
      else (Some NetError, s))"

definition Printf :: "string \<Rightarrow> session \<Rightarrow> session" where
  "Printf line s = s\<lparr>printed := printed s @ [line]\<rparr>"

subsection \<open>The outbound pump\<close>

text \<open>
  One result of \<^verbatim>\<open>hijackedResp.Read(buf)\<close> is the pair of the bytes read,
  \<^verbatim>\<open>buf[:nr]\<close>, and the error. One turn of the loop takes such a result; it yields
  \<open>Some err\<close> when the goroutine sends \<open>err\<close> on \<^verbatim>\<open>errChan\<close> and returns, and
  \<open>None\<close> when the loop goes on. The pump runs the loop over the results the stream
  delivers; on a finite list of results without an error it ends blocked in the next
  \<^verbatim>\<open>Read\<close>, which is the outcome \<open>None\<close>.
\<close>

type_synonym read_result = "string \<times> error option"

definition outbound_turn :: "read_result \<Rightarrow> session \<Rightarrow> error option \<times> session" where
  "outbound_turn r s =
     (case r of (chunk, err) \<Rightarrow>
        (case err of
           Some e \<Rightarrow> (Some e, s)
         | None \<Rightarrow>
             if length chunk > 0
             then WriteMessage BinaryMessage chunk s
             else (None, s)))"

fun outbound_pump :: "read_result list \<Rightarrow> session \<Rightarrow> error option \<times> session" where
  "outbound_pump [] s = (None, s)"
| "outbound_pump (r # rs) s =
     (case outbound_turn r s of
        (Some e, s') \<Rightarrow> (Some e, s')
      | (None, s') \<Rightarrow> outbound_pump rs s')"

text \<open>The results the loop gets to see: those up to and including the first error.\<close>

fun consumed :: "read_result list \<Rightarrow> read_result list" where
  "consumed [] = []"
| "consumed ((chunk, None) # rs) = (chunk, None) # consumed rs"
| "consumed ((chunk, Some e) # rs) = [(chunk, Some e)]"

subsection \<open>The inbound pump\<close>

text \<open>
  One result of \<^verbatim>\<open>ws.ReadMessage()\<close> is the message type, the payload and the error.
  The anonymous struct the payload is unmarshalled into is \<open>control\<close>;
  \<^verbatim>\<open>json.Unmarshal\<close> itself is a parameter \<open>unmarshal\<close>, with \<open>None\<close> for an error.
\<close>

record control =
  msgType :: string
  msgData :: string
  msgCols :: int
  msgRows :: int

type_synonym ws_result = "int \<times> string \<times> error option"

definition inbound_turn ::
  "(string \<Rightarrow> control option) \<Rightarrow> string \<Rightarrow> string \<Rightarrow> ws_result \<Rightarrow> session
     \<Rightarrow> error option \<times> session" where
  "inbound_turn unmarshal contextName execID r s =
     (case r of (messageType, p, err) \<Rightarrow>
        (case err of
           Some e \<Rightarrow> (Some e, s)
         | None \<Rightarrow>
             if messageType = TextMessage
             then
               (case unmarshal p of
                  None \<Rightarrow> (None, s)
                | Some msg \<Rightarrow>
                    if msgType msg = ''input'' then Write_h (msgData msg) s
                    else if msgType msg = ''resize'' then
                      (case ResizeExec contextName execID (msgRows msg) (msgCols msg) (svc s) of
                         (Some e, w') \<Rightarrow>
                           (None, Printf ''Failed to resize terminal'' (s\<lparr>svc := w'\<rparr>))
                       | (None, w') \<Rightarrow> (None, s\<lparr>svc := w'\<rparr>))
                    else (None, s))
             else (None, s)))"

fun inbound_pump ::
  "(string \<Rightarrow> control option) \<Rightarrow> string \<Rightarrow> string \<Rightarrow> ws_result list \<Rightarrow> session
     \<Rightarrow> error option \<times> session" where
  "inbound_pump unmarshal contextName execID [] s = (None, s)"
| "inbound_pump unmarshal contextName execID (r # rs) s =
     (case inbound_turn unmarshal contextName execID r s of
        (Some e, s') \<Rightarrow> (Some e, s')
      | (None, s') \<Rightarrow> inbound_pump unmarshal contextName execID rs s')"

text \<open>The number of resize calls the backend has received.\<close>

fun is_resize :: "event \<Rightarrow> bool" where
  "is_resize (EvExecResize c e h w) = True"
| "is_resize _ = False"

definition resize_calls :: "session \<Rightarrow> nat" where
  "resize_calls s = length (filter is_resize (log (svc s)))"

subsection \<open>The handler and its goroutines\<close>

text \<open>
  \<^verbatim>\<open>ExecContainer\<close> runs three goroutines: the handler itself and the two pumps it starts
  with \<^verbatim>\<open>go\<close>. The handler is cut at its calls: \<^verbatim>\<open>CreateExec\<close>, \<^verbatim>\<open>AttachExec\<close>, the two
  \<^verbatim>\<open>go\<close> statements, \<^verbatim>\<open>StartExec\<close>, the \<^verbatim>\<open>select\<close>; a pump takes one turn of its loop
  per step. The model starts when the upgrade to a websocket has succeeded. When the
  handler returns, its deferred calls close the process stream (once attached) and the
  operator connection; \<open>M_Returned\<close> records why it returned.
\<close>

datatype cause = CreateFailed | AttachFailed | StartFailed | PumpEnded error | ClientGone

datatype mpc =
    M_CreateExec
  | M_AttachExec
  | M_GoOutbound
  | M_GoInbound
  | M_StartExec
  | M_Select
  | M_Returned cause

datatype ppc = NotStarted | Running | Exited

datatype tid = Main | Outbound | Inbound

text \<open>
  The state of one call of \<^verbatim>\<open>ExecContainer\<close>: the session, where each goroutine stands,
  the buffered channel \<^verbatim>\<open>errChan\<close>, the exec instance \<^verbatim>\<open>resp.ID\<close>, and what the
  environment will deliver: the results of the coming \<^verbatim>\<open>Read\<close> calls on the process
  stream, those of the coming \<^verbatim>\<open>ReadMessage\<close> calls on the operator connection, and
  whether \<^verbatim>\<open>c.Done()\<close> is ready. A read from an empty list blocks; a read on a closed
  connection fails.
\<close>

record bridge =
  sess :: session
  main_pc :: mpc
  out_pc :: ppc
  in_pc :: ppc
  errChan :: "error list"
  reads :: "read_result list"
  messages :: "ws_result list"
  execID :: string
  client_done :: bool

text \<open>\<^verbatim>\<open>log.Printf\<close> followed by \<^verbatim>\<open>ws.WriteMessage(websocket.TextMessage, ...)\<close>, whose
  result the handler ignores; and the two deferred \<^verbatim>\<open>Close\<close> calls.\<close>

definition report :: "string \<Rightarrow> string \<Rightarrow> session \<Rightarrow> session" where
  "report line msg s = snd (WriteMessage TextMessage msg (Printf line s))"

definition close_ws :: "session \<Rightarrow> session" where
  "close_ws s = s\<lparr>ws_closed := True\<rparr>"

definition close_h :: "session \<Rightarrow> session" where
  "close_h s = s\<lparr>h_closed := True\<rparr>"

definition main_step :: "string \<Rightarrow> string \<Rightarrow> bridge \<Rightarrow> bridge" where
  "main_step contextName containerID b =
     (case main_pc b of
        M_CreateExec \<Rightarrow>
          (case CreateExec contextName containerID (svc (sess b)) of
             (Inl err, w') \<Rightarrow>
               b\<lparr>sess := close_ws (report ''Failed to create exec'' ''Error creating exec''
                                      ((sess b)\<lparr>svc := w'\<rparr>)),
                 main_pc := M_Returned CreateFailed\<rparr>
           | (Inr eid, w') \<Rightarrow>
               b\<lparr>sess := (sess b)\<lparr>svc := w'\<rparr>, execID := eid, main_pc := M_AttachExec\<rparr>)
      | M_AttachExec \<Rightarrow>
          (case AttachExec contextName (execID b) (svc (sess b)) of
             (Some err, w') \<Rightarrow>
               b\<lparr>sess := close_ws (report ''Failed to attach exec'' ''Error attaching to exec''
                                      ((sess b)\<lparr>svc := w'\<rparr>)),
                 main_pc := M_Returned AttachFailed\<rparr>
           | (None, w') \<Rightarrow> b\<lparr>sess := (sess b)\<lparr>svc := w'\<rparr>, main_pc := M_GoOutbound\<rparr>)
      | M_GoOutbound \<Rightarrow> b\<lparr>out_pc := Running, main_pc := M_GoInbound\<rparr>
      | M_GoInbound \<Rightarrow> b\<lparr>in_pc := Running, main_pc := M_StartExec\<rparr>
      | M_StartExec \<Rightarrow>
          (case StartExec contextName (execID b) (svc (sess b)) of
             (Some err, w') \<Rightarrow>
               b\<lparr>sess := close_ws (close_h (report ''Failed to start exec'' ''Error starting exec''
                                               ((sess b)\<lparr>svc := w'\<rparr>))),
                 main_pc := M_Returned StartFailed\<rparr>
           | (None, w') \<Rightarrow> b\<lparr>sess := (sess b)\<lparr>svc := w'\<rparr>, main_pc := M_Select\<rparr>)
      | M_Select \<Rightarrow>
          (case errChan b of
             err # rest \<Rightarrow>
               b\<lparr>errChan := rest,
                 sess := close_ws (close_h (if err \<noteq> EOF
                                             then Printf ''Connection error'' (sess b)
                                             else sess b)),
                 main_pc := M_Returned (PumpEnded err)\<rparr>
           | [] \<Rightarrow>
               if client_done b
               then b\<lparr>sess := close_ws (close_h (Printf ''Client connection closed'' (sess b))),
                      main_pc := M_Returned ClientGone\<rparr>
               else b)
      | M_Returned c \<Rightarrow> b)"

definition outbound_step :: "bridge \<Rightarrow> bridge" where
  "outbound_step b =
     (if out_pc b \<noteq> Running then b
      else if h_closed (sess b)
      then b\<lparr>errChan := errChan b @ [NetError], out_pc := Exited\<rparr>
      else
        (case reads b of
           [] \<Rightarrow> b
         | r # rs \<Rightarrow>
             (case outbound_turn r (sess b) of
                (Some e, s') \<Rightarrow>
                  b\<lparr>sess := s', reads := rs, errChan := errChan b @ [e], out_pc := Exited\<rparr>
              | (None, s') \<Rightarrow> b\<lparr>sess := s', reads := rs\<rparr>)))"

definition inbound_step :: "(string \<Rightarrow> control option) \<Rightarrow> string \<Rightarrow> bridge \<Rightarrow> bridge" where
  "inbound_step unmarshal contextName b =
     (if in_pc b \<noteq> Running then b
      else if ws_closed (sess b)
      then b\<lparr>errChan := errChan b @ [NetError], in_pc := Exited\<rparr>
      else
        (case messages b of
           [] \<Rightarrow> b
         | r # rs \<Rightarrow>
             (case inbound_turn unmarshal contextName (execID b) r (sess b) of
                (Some e, s') \<Rightarrow>
                  b\<lparr>sess := s', messages := rs, errChan := errChan b @ [e], in_pc := Exited\<rparr>
              | (None, s') \<Rightarrow> b\<lparr>sess := s', messages := rs\<rparr>)))"

definition step ::
  "(string \<Rightarrow> control option) \<Rightarrow> string \<Rightarrow> string \<Rightarrow> tid \<Rightarrow> bridge \<Rightarrow> bridge" where
  "step unmarshal contextName containerID t b =
     (case t of
        Main \<Rightarrow> main_step contextName containerID b
      | Outbound \<Rightarrow> outbound_step b
      | Inbound \<Rightarrow> inbound_step unmarshal contextName b)"

definition run ::
  "(string \<Rightarrow> control option) \<Rightarrow> string \<Rightarrow> string \<Rightarrow> tid list \<Rightarrow> bridge \<Rightarrow> bridge" where
  "run unmarshal contextName containerID sched b =
     fold (step unmarshal contextName containerID) sched b"

definition ExecContainer_start :: "session \<Rightarrow> read_result list \<Rightarrow> ws_result list \<Rightarrow> bridge" where
  "ExecContainer_start s rs ms =
     \<lparr>sess = s, main_pc = M_CreateExec, out_pc = NotStarted, in_pc = NotStarted,
      errChan = [], reads = rs, messages = ms, execID = [], client_done = False\<rparr>"

text \<open>Whether the handler has issued the call of \<^verbatim>\<open>StartExec\<close>.\<close>

fun start_issued :: "mpc \<Rightarrow> bool" where
  "start_issued M_Select = True"
| "start_issued (M_Returned StartFailed) = True"
| "start_issued (M_Returned (PumpEnded e)) = True"
| "start_issued (M_Returned ClientGone) = True"
| "start_issued _ = False"

text \<open>The order the handler imposes: the outbound pump is launched before the inbound
  one, and both before the call of \<^verbatim>\<open>StartExec\<close>.\<close>

definition launch_order :: "bridge \<Rightarrow> bool" where
  "launch_order b \<longleftrightarrow>
     (main_pc b = M_GoInbound \<longrightarrow> out_pc b \<noteq> NotStarted)
     \<and> (main_pc b = M_StartExec \<or> start_issued (main_pc b) \<longrightarrow>
          out_pc b \<noteq> NotStarted \<and> in_pc b \<noteq> NotStarted)"

subsection \<open>Example sessions\<close>

text \<open>A world with a client for \<^verbatim>\<open>prod\<close> in the registry whose backend rejects every
  call, a session on it, and a decoder that knows three payloads.\<close>

definition live_world :: world where
  "live_world = (snd (getClient ''prod'' prod_world))\<lparr>remote_ok := (\<lambda>k. False)\<rparr>"

definition live_session :: session where
  "live_session =
     \<lparr>svc = live_world, ws_written = [], ws_ok = (\<lambda>k. True), ws_closed = False,
      h_written = [], h_ok = (\<lambda>k. True), h_closed = False, printed = []\<rparr>"

definition example_unmarshal :: "string \<Rightarrow> control option" where
  "example_unmarshal p =
     (if p = ''{type:resize,rows:40,cols:120}''
      then Some \<lparr>msgType = ''resize'', msgData = [], msgCols = 120, msgRows = 40\<rparr>
      else if p = ''{type:input,data:ls}''
      then Some \<lparr>msgType = ''input'', msgData = ''ls'', msgCols = 0, msgRows = 0\<rparr>
      else None)"

text \<open>A session that is about to open on a backend that accepts the creation of the exec
  instance and the attachment, and rejects the start.\<close>

definition opening_world :: world where
  "opening_world = prod_world\<lparr>remote_ok := (\<lambda>k. k < 4)\<rparr>"

definition opening_session :: session where
  "opening_session =
     \<lparr>svc = opening_world, ws_written = [], ws_ok = (\<lambda>k. True),
      ws_closed = False, h_written = [], h_ok = (\<lambda>k. True), h_closed = False, printed = []\<rparr>"

text \<open>The same session once the exec instance has been created and attached, and the
  message the operator sends first.\<close>

definition opening_created :: world where
  "opening_created = snd (CreateExec ''prod'' ''c1'' opening_world)"

definition opening_attached :: world where
  "opening_attached = snd (AttachExec ''prod'' ''exec-1'' opening_created)"

definition first_input :: "ws_result list" where
  "first_input = [(TextMessage, ''{type:input,data:ls}'', None)]"

section \<open>Properties of the registry\<close>

subsection \<open>Fields of the world after each elementary operation\<close>

lemma clients_emit [simp]: "clients (emit e w) = clients w"
  by (simp add: emit_def)

lemma emit_fields [simp]:
  "store (emit e w) = store w" "docker_host (emit e w) = docker_host w"
  "writable (emit e w) = writable w" "new_ok (emit e w) = new_ok w"
  "remote_ok (emit e w) = remote_ok w" "exec_ids (emit e w) = exec_ids w"
  "created (emit e w) = created w"
  "log (emit e w) = log w @ [e]"
  by (simp_all add: emit_def)

lemma cacheClient_fields [simp]:
  "clients (cacheClient n c w) = (clients w)(n \<mapsto> c)"
  "store (cacheClient n c w) = store w" "docker_host (cacheClient n c w) = docker_host w"
  "writable (cacheClient n c w) = writable w" "new_ok (cacheClient n c w) = new_ok w"
  "remote_ok (cacheClient n c w) = remote_ok w" "exec_ids (cacheClient n c w) = exec_ids w"
  "created (cacheClient n c w) = created w"
  "log (cacheClient n c w) = log w @ [EvCache n c]"
  by (simp_all add: cacheClient_def)

lemma Setenv_fields [simp]:
  "clients (Setenv_DOCKER_HOST v w) = clients w"
  "store (Setenv_DOCKER_HOST v w) = store w" "docker_host (Setenv_DOCKER_HOST v w) = v"
  "writable (Setenv_DOCKER_HOST v w) = writable w" "new_ok (Setenv_DOCKER_HOST v w) = new_ok w"
  "remote_ok (Setenv_DOCKER_HOST v w) = remote_ok w"
  "exec_ids (Setenv_DOCKER_HOST v w) = exec_ids w" "created (Setenv_DOCKER_HOST v w) = created w"
  "log (Setenv_DOCKER_HOST v w) = log w @ [EvSetenv v]"
  by (simp_all add: Setenv_DOCKER_HOST_def)

lemma remote_call_fields [simp]:
  "clients (snd (remote_call ev w)) = clients w"
  "log (snd (remote_call ev w)) = log w @ [ev]"
  "remote_ok (snd (remote_call ev w)) = remote_ok w"
  "fst (remote_call ev w) = (if remote_ok w (length (log w)) then None else Some RemoteError)"
  by (simp_all add: remote_call_def)

lemma readConfig_clients: "clients (snd (readConfig w)) = clients w"
  by (simp add: readConfig_def split: cfg_file.splits)

lemma NewClientWithOpts_clients: "clients (snd (NewClientWithOpts host w)) = clients w"
  by (simp add: NewClientWithOpts_def Let_def)

lemma saveConfig_result:
  "saveConfig doc w = (r, w') \<Longrightarrow>
     clients w' = clients w \<and> created w' = created w
     \<and> (r = None \<longleftrightarrow> writable w) \<and> (r = None \<longrightarrow> store w' = Doc doc)
     \<and> (r \<noteq> None \<longrightarrow> w' = w)"
  by (auto simp: saveConfig_def split: if_splits)

subsection \<open>The two ways through \<open>getClient\<close>\<close>

lemma getClient_cached: "clients w n = Some c \<Longrightarrow> getClient n w = (Inr c, w)"
  by (simp add: getClient_def)

lemma getClient_fresh:
  assumes "clients w n = None" and "store w = Doc config"
    and "lookupHost n config = Inr host" and "new_ok w host"
  shows "getClient n w =
    (Inr \<lparr>cid = created w, bound_host = host\<rparr>,
     cacheClient n \<lparr>cid = created w, bound_host = host\<rparr>
       (emit (EvNewClient \<lparr>cid = created w, bound_host = host\<rparr>) (w\<lparr>created := Suc (created w)\<rparr>)))"
  using assms by (simp add: getClient_def readConfig_def NewClientWithOpts_def Let_def)

lemma getClient_success_cached:
  assumes "getClient name w = (Inr cli, w1)"
  shows "clients w1 name = Some cli"
proof (cases "clients w name")
  case (Some c)
  with assms show ?thesis by (simp add: getClient_def)
next
  case None
  obtain r w0 where rc: "readConfig w = (r, w0)" by (cases "readConfig w")
  show ?thesis
  proof (cases r)
    case (Inl e)
    with assms None rc show ?thesis by (simp add: getClient_def)
  next
    case (Inr config)
    show ?thesis
    proof (cases "lookupHost name config")
      case (Inl e)
      with assms None rc Inr show ?thesis by (simp add: getClient_def)
    next
      case hostr: (Inr host)
      obtain r2 w2 where nc: "NewClientWithOpts host w0 = (r2, w2)"
        by (cases "NewClientWithOpts host w0")
      show ?thesis
      proof (cases r2)
        case (Inl e)
        with assms None rc Inr hostr nc show ?thesis by (simp add: getClient_def)
      next
        case (Inr c)
        with assms None rc \<open>r = Inr config\<close> hostr nc have "w1 = cacheClient name cli w2"
          by (auto simp: getClient_def)
        then show ?thesis by simp
      qed
    qed
  qed
qed

lemma getClient_fresh_created:
  assumes none: "clients w name = None" and get: "getClient name w = (Inr cli, w1)"
  shows "created w1 = Suc (created w) \<and> cid cli = created w"
proof -
  obtain r w0 where rc: "readConfig w = (r, w0)" by (cases "readConfig w")
  have c0: "created w0 = created w"
    using rc by (auto simp: readConfig_def split: cfg_file.splits if_splits)
  show ?thesis
  proof (cases r)
    case (Inl e)
    with get none rc show ?thesis by (simp add: getClient_def)
  next
    case (Inr config)
    show ?thesis
    proof (cases "lookupHost name config")
      case (Inl e)
      with get none rc Inr show ?thesis by (simp add: getClient_def)
    next
      case hostr: (Inr host)
      show ?thesis
      proof (cases "new_ok w0 host")
        case False
        with get none rc Inr hostr show ?thesis
          by (simp add: getClient_def NewClientWithOpts_def)
      next
        case True
        with get none rc Inr hostr c0 show ?thesis
          by (auto simp: getClient_def NewClientWithOpts_def Let_def)
      qed
    qed
  qed
qed

lemma lookupHost_defaultConfig: "lookupHost name defaultConfig = Inl (NotFound name)"
  by (simp add: lookupHost_def defaultConfig_def)

lemma lookupHost_deleted:
  "lookupHost name (AList.update ''contexts'' (JObj (AList.delete name contexts)) config)
     = Inl (NotFound name)"
  by (simp add: lookupHost_def update_conv' delete_conv')

lemma lookupHost_updated:
  "Host cfg \<noteq> [] \<Longrightarrow>
   lookupHost name (AList.update ''contexts''
      (JObj (AList.update name (contextEntry cfg) contexts)) config) = Inr (Host cfg)"
  by (simp add: lookupHost_def update_conv' contextEntry_def string_or_empty_def)

subsection \<open>The example world\<close>

lemma prod_world_fields:
  "clients prod_world = Map.empty" "store prod_world = Doc prod_config"
  "writable prod_world" "new_ok prod_world h" "created prod_world = 0" "log prod_world = []"
  "docker_host prod_world = []"
  by (simp_all add: prod_world_def)

lemma prod_config_lookups:
  "lookupHost ''staging'' prod_config = Inr ''tcp://10.0.0.7:2375''"
  "lookupHost ''prod'' prod_config = Inr ''tcp://10.0.0.5:2375''"
  "lookupHost ''test'' prod_config = Inl (NotFound ''test'')"
  "as_string (map_of prod_config ''current-context'') = Some ''prod''"
  by (simp_all add: lookupHost_def prod_config_def string_or_empty_def)

lemma prod_config_contexts:
  "as_map (map_of prod_config ''contexts'') = Some
     [(''staging'', JObj [(''type'', JStr ''tcp''), (''host'', JStr ''tcp://10.0.0.7:2375'')]),
      (''prod'', JObj [(''type'', JStr ''tcp''), (''host'', JStr ''tcp://10.0.0.5:2375'')])]"
  by (simp add: prod_config_def)

lemma prod_exists:
  "map_of [(''staging'', JObj [(''type'', JStr ''tcp''), (''host'', JStr ''tcp://10.0.0.7:2375'')]),
      (''prod'', JObj [(''type'', JStr ''tcp''), (''host'', JStr ''tcp://10.0.0.5:2375'')])] ''prod'' \<noteq> None"
  by simp

lemma prod_update_fields:
  "Host prod_update = ''tcp://10.0.0.6:2375''" "Host prod_update \<noteq> []"
  by (simp_all add: prod_update_def)

lemma wf_prod_world: "wf_world prod_world"
  by (simp add: wf_world_def prod_world_fields)

lemma staging_cached_get:
  "getClient ''staging'' prod_world = (Inr \<lparr>cid = 0, bound_host = ''tcp://10.0.0.7:2375''\<rparr>, staging_cached)"
  unfolding staging_cached_def
  by (simp add: getClient_fresh [where config = prod_config] prod_world_fields prod_config_lookups)

lemma staging_cached_fields:
  "clients staging_cached ''staging'' = Some \<lparr>cid = 0, bound_host = ''tcp://10.0.0.7:2375''\<rparr>"
  "store staging_cached = Doc prod_config" "writable staging_cached"
  unfolding staging_cached_def
  by (simp_all add: getClient_fresh [where config = prod_config] prod_world_fields prod_config_lookups
      cacheClient_def emit_def)

lemma readonly_world_fields:
  "clients readonly_world = Map.empty" "store readonly_world = Doc prod_config"
  "\<not> writable readonly_world" "new_ok readonly_world h" "created readonly_world = 0"
  by (simp_all add: readonly_world_def prod_world_def)

lemma unreachable_world_fields:
  "clients unreachable_world = Map.empty" "store unreachable_world = Doc prod_config"
  "\<not> new_ok unreachable_world h"
  by (simp_all add: unreachable_world_def prod_world_def)

subsection \<open>A failed \<open>getClient\<close> leaves no trace in the registry\<close>

lemma getClient_failure_clients:
  assumes "getClient contextName w = (Inl err, w')"
  shows "clients w' = clients w \<and> clients w' contextName = None"
proof (cases "clients w contextName")
  case (Some cli)
  with assms show ?thesis by (simp add: getClient_def)
next
  case None
  obtain r w1 where rc: "readConfig w = (r, w1)" by (cases "readConfig w")
  have c1: "clients w1 = clients w" using readConfig_clients [of w] rc by simp
  show ?thesis
  proof (cases r)
    case (Inl e)
    with assms None rc c1 show ?thesis by (simp add: getClient_def)
  next
    case (Inr config)
    show ?thesis
    proof (cases "lookupHost contextName config")
      case (Inl e)
      with assms None rc Inr c1 show ?thesis by (simp add: getClient_def)
    next
      case hostr: (Inr host)
      obtain r2 w2 where nc: "NewClientWithOpts host w1 = (r2, w2)"
        by (cases "NewClientWithOpts host w1")
      have c2: "clients w2 = clients w1"
        using NewClientWithOpts_clients [of host w1] nc by simp
      show ?thesis
      proof (cases r2)
        case (Inl e)
        with assms None rc Inr hostr nc c1 c2 show ?thesis by (simp add: getClient_def)
      next
        case (Inr cli)
        with assms None rc \<open>r = Inr config\<close> hostr nc show ?thesis
          by (simp add: getClient_def)
      qed
    qed
  qed
qed

text \<open>
  Claim C9. When \<open>getClient\<close> fails, for whatever reason (no readable configuration, no
  entry for the name, an empty host, a client that cannot be built), the error goes to
  the caller and the \<^verbatim>\<open>clients\<close> map is as it was before the call, with no entry for
  the name. So the next \<open>getClient\<close> for the name goes to the store again: in any later
  world with the same registry whose store holds a host for the name, and where the
  client can be built, it succeeds with a new client for that host.
\<close>

theorem getClient_failure_keeps_registry:
  assumes "getClient contextName w = (Inl err, w')"
  shows "clients w' = clients w \<and> clients w' contextName = None
     \<and> (\<forall>w'' config host.
           clients w'' = clients w' \<and> store w'' = Doc config
           \<and> lookupHost contextName config = Inr host \<and> new_ok w'' host \<longrightarrow>
           fst (getClient contextName w'') = Inr \<lparr>cid = created w'', bound_host = host\<rparr>)"
proof -
  note unchanged = getClient_failure_clients [OF assms]
  have retry: "fst (getClient contextName w'') = Inr \<lparr>cid = created w'', bound_host = host\<rparr>"
    if h: "clients w'' = clients w' \<and> store w'' = Doc config
           \<and> lookupHost contextName config = Inr host \<and> new_ok w'' host"
    for w'' config host
  proof -
    from h have e: "clients w'' = clients w'" by (rule conjunct1)
    from unchanged have u: "clients w' contextName = None" by (rule conjunct2)
    have n: "clients w'' contextName = None" by (simp only: e u)
    from h have s: "store w'' = Doc config" and l: "lookupHost contextName config = Inr host"
      and k: "new_ok w'' host" by simp_all
    show ?thesis by (simp add: getClient_fresh [OF n s l k])
  qed
  show ?thesis
  proof (intro conjI allI impI)
    show "clients w' = clients w" using unchanged by (rule conjunct1)
    show "clients w' contextName = None" using unchanged by (rule conjunct2)
    fix w'' :: world and config host
    assume "clients w'' = clients w' \<and> store w'' = Doc config
           \<and> lookupHost contextName config = Inr host \<and> new_ok w'' host"
    then show "fst (getClient contextName w'') = Inr \<lparr>cid = created w'', bound_host = host\<rparr>"
      by (rule retry)
  qed
qed

theorem getClient_failure_keeps_registry_witness:
  "getClient ''prod'' unreachable_world = (Inl ClientError, unreachable_world)
   \<and> clients unreachable_world ''prod'' = None
   \<and> clients prod_world = clients unreachable_world
   \<and> store prod_world = Doc prod_config
   \<and> lookupHost ''prod'' prod_config = Inr ''tcp://10.0.0.5:2375''
   \<and> new_ok prod_world ''tcp://10.0.0.5:2375''
   \<and> fst (getClient ''prod'' prod_world) = Inr \<lparr>cid = 0, bound_host = ''tcp://10.0.0.5:2375''\<rparr>"
proof -
  have f: "getClient ''prod'' unreachable_world = (Inl ClientError, unreachable_world)"
    by (simp add: getClient_def readConfig_def NewClientWithOpts_def unreachable_world_fields
        prod_config_lookups)
  note t = getClient_failure_keeps_registry [OF f]
  have n: "clients unreachable_world ''prod'' = None" using t by simp
  have c: "clients prod_world = clients unreachable_world"
    by (simp add: prod_world_fields unreachable_world_fields)
  have h: "clients prod_world = clients unreachable_world \<and> store prod_world = Doc prod_config
      \<and> lookupHost ''prod'' prod_config = Inr ''tcp://10.0.0.5:2375''
      \<and> new_ok prod_world ''tcp://10.0.0.5:2375''"
    by (intro conjI c prod_world_fields(2) prod_config_lookups(2) prod_world_fields(4))
  from t [THEN conjunct2, THEN conjunct2, THEN spec, THEN spec, THEN spec, THEN mp, OF h]
  have g: "fst (getClient ''prod'' prod_world) = Inr \<lparr>cid = 0, bound_host = ''tcp://10.0.0.5:2375''\<rparr>"
    by (simp add: prod_world_fields(5))
  show ?thesis
    by (intro conjI f n c prod_world_fields(2) prod_config_lookups(2) prod_world_fields(4) g)
qed

subsection \<open>Deleting a context\<close>

text \<open>
  Claim C5. When the name is the current context of the stored document, \<open>DeleteContext\<close>
  fails with the in-use error, and nothing changes: not the file, not the registry.
\<close>

theorem DeleteContext_current_InUse:
  assumes "store w = Doc config"
    and "as_string (map_of config ''current-context'') = Some name"
  shows "DeleteContext name w = (Some (InUse name), w)"
  using assms by (simp add: DeleteContext_def readConfig_def)

theorem DeleteContext_current_InUse_witness:
  "store prod_world = Doc prod_config
   \<and> as_string (map_of prod_config ''current-context'') = Some ''prod''
   \<and> DeleteContext ''prod'' prod_world = (Some (InUse ''prod''), prod_world)"
  using DeleteContext_current_InUse [of prod_world prod_config "''prod''"]
  by (simp add: prod_world_def prod_config_def)

text \<open>When the file does not exist yet, \<open>readConfig\<close> creates the default document, whose
  current context is the empty name: deleting the empty name then fails in the same
  way, with the default document now in the file.\<close>

lemma DeleteContext_absent_file:
  assumes "store w = Absent" and "writable w"
  shows "DeleteContext [] w =
     (Some (InUse []), emit (EvWrite defaultConfig) (w\<lparr>store := Doc defaultConfig\<rparr>))"
  using assms by (simp add: DeleteContext_def readConfig_def defaultConfig_def)

text \<open>The older single-client service is different: there the current context can be
  deleted, and \<^verbatim>\<open>default\<close> becomes the current context.\<close>

lemma DeleteContext_single_current:
  assumes "store w = Doc config"
    and "as_string (map_of config ''current-context'') = Some name"
    and "name \<noteq> ''default''"
    and "as_map (map_of config ''contexts'') = Some contexts"
    and "map_of contexts name \<noteq> None"
    and "writable w"
  shows "fst (DeleteContext_single name w) = None
     \<and> store (snd (DeleteContext_single name w)) =
         Doc (AList.update ''current-context'' (JStr ''default'')
               (AList.update ''contexts'' (JObj (AList.delete name contexts)) config))"
  using assms
  by (simp add: DeleteContext_single_def saveConfig_def Let_def del: not_None_eq)

lemma DeleteContext_saves:
  assumes st: "store w = Doc config"
    and nc: "as_string (map_of config ''current-context'') \<noteq> Some name"
    and cs: "as_map (map_of config ''contexts'') = Some contexts"
    and ex: "map_of contexts name \<noteq> None"
    and wr: "writable w"
  shows "DeleteContext name w =
    (None, emit (EvWrite (AList.update ''contexts'' (JObj (AList.delete name contexts)) config))
       (w\<lparr>store := Doc (AList.update ''contexts'' (JObj (AList.delete name contexts)) config)\<rparr>))"
  using assms by (simp add: DeleteContext_def readConfig_def saveConfig_def)

lemma DeleteContext_no_client:
  "clients (snd (DeleteContext name w)) = clients w
     \<and> created (snd (DeleteContext name w)) = created w"
  by (simp add: DeleteContext_def readConfig_def saveConfig_def
      split: cfg_file.splits option.splits)

text \<open>
  Claim C6, as the code has it. \<open>DeleteContext\<close> on an existing context that is not the
  current one removes the entry from the stored document and succeeds, provided the
  file can be written. It does not touch the registry: \<open>getClient\<close> for the name then
  fails with the not-found error when no client was cached for it, and returns the
  cached client when one was.
\<close>

theorem DeleteContext_noncurrent:
  assumes st: "store w = Doc config"
    and nc: "as_string (map_of config ''current-context'') \<noteq> Some name"
    and cs: "as_map (map_of config ''contexts'') = Some contexts"
    and ex: "map_of contexts name \<noteq> None"
    and wr: "writable w"
  shows "\<exists>w'. DeleteContext name w = (None, w')
     \<and> store w' = Doc (AList.update ''contexts'' (JObj (AList.delete name contexts)) config)
     \<and> clients w' = clients w
     \<and> (clients w name = None \<longrightarrow> getClient name w' = (Inl (NotFound name), w'))
     \<and> (\<forall>cli. clients w name = Some cli \<longrightarrow> getClient name w' = (Inr cli, w'))"
proof -
  let ?doc = "AList.update ''contexts'' (JObj (AList.delete name contexts)) config"
  let ?w' = "emit (EvWrite ?doc) (w\<lparr>store := Doc ?doc\<rparr>)"
  have d: "DeleteContext name w = (None, ?w')"
    using assms by (rule DeleteContext_saves)
  have s: "store ?w' = Doc ?doc" by (simp add: emit_def)
  have c: "clients ?w' = clients w" by simp
  have g1: "clients w name = None \<Longrightarrow> getClient name ?w' = (Inl (NotFound name), ?w')"
    using s c by (simp add: getClient_def readConfig_def lookupHost_deleted emit_def)
  have g2: "\<And>cli. clients w name = Some cli \<Longrightarrow> getClient name ?w' = (Inr cli, ?w')"
    by (rule getClient_cached) simp
  show ?thesis
  proof (intro exI conjI impI allI)
    show "DeleteContext name w = (None, ?w')" by (rule d)
    show "store ?w' = Doc ?doc" by (rule s)
    show "clients ?w' = clients w" by (rule c)
    show "getClient name ?w' = (Inl (NotFound name), ?w')" if "clients w name = None"
      using that by (rule g1)
    show "getClient name ?w' = (Inr cli, ?w')" if "clients w name = Some cli" for cli
      using that by (rule g2)
  qed
qed

theorem DeleteContext_noncurrent_witness:
  "store prod_world = Doc prod_config
   \<and> as_string (map_of prod_config ''current-context'') \<noteq> Some ''staging''
   \<and> writable prod_world \<and> clients prod_world ''staging'' = None
   \<and> (\<exists>w'. DeleteContext ''staging'' prod_world = (None, w')
         \<and> clients w' = clients prod_world
         \<and> getClient ''staging'' w' = (Inl (NotFound ''staging''), w'))"
proof -
  have nc: "as_string (map_of prod_config ''current-context'') \<noteq> Some ''staging''"
    by (simp add: prod_config_lookups)
  have ex: "map_of [(''staging'', JObj [(''type'', JStr ''tcp''), (''host'', JStr ''tcp://10.0.0.7:2375'')]),
      (''prod'', JObj [(''type'', JStr ''tcp''), (''host'', JStr ''tcp://10.0.0.5:2375'')])] ''staging'' \<noteq> None"
    by simp
  have cl: "clients prod_world ''staging'' = None" by (simp add: prod_world_fields)
  from DeleteContext_noncurrent [OF prod_world_fields(2) nc prod_config_contexts ex prod_world_fields(3)]
  obtain w' where w': "DeleteContext ''staging'' prod_world = (None, w')"
      "clients w' = clients prod_world"
      "clients prod_world ''staging'' = None \<longrightarrow> getClient ''staging'' w' = (Inl (NotFound ''staging''), w')"
    by (elim exE conjE)
  from w'(3) cl have g: "getClient ''staging'' w' = (Inl (NotFound ''staging''), w')" by (rule mp)
  show ?thesis
    by (intro conjI exI [of _ w'] prod_world_fields(2) nc prod_world_fields(3) cl w'(1) w'(2) g)
qed

text \<open>The claim as stated fails: after a first \<open>getClient\<close> for \<^verbatim>\<open>staging\<close> the context is
  deleted, and the next \<open>getClient\<close> still succeeds, with the client built before.\<close>

theorem DeleteContext_then_get_counterexample:
  "fst (getClient ''staging'' prod_world) = Inr \<lparr>cid = 0, bound_host = ''tcp://10.0.0.7:2375''\<rparr>
   \<and> fst (DeleteContext ''staging'' staging_cached) = None
   \<and> fst (getClient ''staging'' staging_deleted) = Inr \<lparr>cid = 0, bound_host = ''tcp://10.0.0.7:2375''\<rparr>
   \<and> fst (getClient ''staging'' staging_deleted) \<noteq> Inl (NotFound ''staging'')"
proof -
  have a: "fst (getClient ''staging'' prod_world) = Inr \<lparr>cid = 0, bound_host = ''tcp://10.0.0.7:2375''\<rparr>"
    by (simp add: staging_cached_get)
  have nc: "as_string (map_of prod_config ''current-context'') \<noteq> Some ''staging''"
    by (simp add: prod_config_lookups)
  have ex: "map_of [(''staging'', JObj [(''type'', JStr ''tcp''), (''host'', JStr ''tcp://10.0.0.7:2375'')]),
      (''prod'', JObj [(''type'', JStr ''tcp''), (''host'', JStr ''tcp://10.0.0.5:2375'')])] ''staging'' \<noteq> None"
    by simp
  note d = DeleteContext_saves [OF staging_cached_fields(2) nc prod_config_contexts ex staging_cached_fields(3)]
  have b: "fst (DeleteContext ''staging'' staging_cached) = None"
    by (simp add: d)
  have c: "clients staging_deleted ''staging'' = Some \<lparr>cid = 0, bound_host = ''tcp://10.0.0.7:2375''\<rparr>"
    unfolding staging_deleted_def by (simp add: d staging_cached_fields)
  have e: "fst (getClient ''staging'' staging_deleted) = Inr \<lparr>cid = 0, bound_host = ''tcp://10.0.0.7:2375''\<rparr>"
    using getClient_cached [OF c] by simp
  from a b e show ?thesis by simp
qed

subsection \<open>Updating a context\<close>

text \<open>What \<open>UpdateContextConfig\<close> does to the current context, branch by branch.\<close>

lemma UpdateContextConfig_current_unfold:
  assumes st: "store w = Doc config"
    and cur: "as_string (map_of config ''current-context'') = Some name"
    and cs: "as_map (map_of config ''contexts'') = Some contexts"
    and ex: "map_of contexts name \<noteq> None"
  shows "UpdateContextConfig name cfg w =
    (case NewClientFromEnv (Setenv_DOCKER_HOST (Host cfg) w) of
       (Inl err, w2) \<Rightarrow> (Some ClientError, w2)
     | (Inr cli, w2) \<Rightarrow>
         saveConfig (AList.update ''contexts''
             (JObj (AList.update name (contextEntry cfg) contexts)) config)
           (cacheClient name cli w2))"
  using assms by (simp add: UpdateContextConfig_def readConfig_def buildDockerHost_def Let_def del: not_None_eq)

lemma NewClientFromEnv_Setenv:
  assumes "Host cfg \<noteq> []"
  shows "NewClientFromEnv (Setenv_DOCKER_HOST (Host cfg) w) =
    (if new_ok w (Host cfg)
     then (Inr \<lparr>cid = created w, bound_host = Host cfg\<rparr>,
           emit (EvNewClient \<lparr>cid = created w, bound_host = Host cfg\<rparr>)
             ((Setenv_DOCKER_HOST (Host cfg) w)\<lparr>created := Suc (created w)\<rparr>))
     else (Inl ClientError, Setenv_DOCKER_HOST (Host cfg) w))"
  using assms by (simp add: NewClientFromEnv_def NewClientWithOpts_def Let_def)

lemma UpdateContextConfig_current_fail:
  assumes st: "store w = Doc config"
    and cur: "as_string (map_of config ''current-context'') = Some name"
    and cs: "as_map (map_of config ''contexts'') = Some contexts"
    and ex: "map_of contexts name \<noteq> None"
    and host: "Host cfg \<noteq> []"
    and bad: "\<not> new_ok w (Host cfg)"
  shows "UpdateContextConfig name cfg w = (Some ClientError, Setenv_DOCKER_HOST (Host cfg) w)"
  using bad
  by (simp add: UpdateContextConfig_current_unfold [OF st cur cs ex] NewClientFromEnv_Setenv [OF host])

lemma UpdateContextConfig_current_new:
  assumes st: "store w = Doc config"
    and cur: "as_string (map_of config ''current-context'') = Some name"
    and cs: "as_map (map_of config ''contexts'') = Some contexts"
    and ex: "map_of contexts name \<noteq> None"
    and host: "Host cfg \<noteq> []"
    and ok: "new_ok w (Host cfg)"
  shows "UpdateContextConfig name cfg w =
     saveConfig (AList.update ''contexts''
             (JObj (AList.update name (contextEntry cfg) contexts)) config)
       (cacheClient name \<lparr>cid = created w, bound_host = Host cfg\<rparr>
          (emit (EvNewClient \<lparr>cid = created w, bound_host = Host cfg\<rparr>)
             ((Setenv_DOCKER_HOST (Host cfg) w)\<lparr>created := Suc (created w)\<rparr>)))"
  using ok
  by (simp add: UpdateContextConfig_current_unfold [OF st cur cs ex] NewClientFromEnv_Setenv [OF host])

lemma UpdateContextConfig_current_log:
  assumes st: "store w = Doc config"
    and cur: "as_string (map_of config ''current-context'') = Some name"
    and cs: "as_map (map_of config ''contexts'') = Some contexts"
    and ex: "map_of contexts name \<noteq> None"
    and host: "Host cfg \<noteq> []"
    and ok: "new_ok w (Host cfg)"
    and wr: "writable w"
  shows "log (snd (UpdateContextConfig name cfg w)) =
     log w @ [EvSetenv (Host cfg),
              EvNewClient \<lparr>cid = created w, bound_host = Host cfg\<rparr>,
              EvCache name \<lparr>cid = created w, bound_host = Host cfg\<rparr>,
              EvWrite (AList.update ''contexts''
                 (JObj (AList.update name (contextEntry cfg) contexts)) config)]"
  using wr
  by (simp add: UpdateContextConfig_current_new [OF st cur cs ex host ok] saveConfig_def)

lemma UpdateContextConfig_noncurrent_no_client:
  assumes st: "store w = Doc config"
    and nc: "as_string (map_of config ''current-context'') \<noteq> Some name"
  shows "clients (snd (UpdateContextConfig name cfg w)) = clients w
       \<and> created (snd (UpdateContextConfig name cfg w)) = created w"
  using assms
  by (simp add: UpdateContextConfig_def readConfig_def saveConfig_def Let_def
      split: option.splits)

text \<open>
  Claim C4, as the code has it. Let the name be the current context, with an entry in
  the stored document, and let the new host be non-empty (with an empty \<^verbatim>\<open>DOCKER_HOST\<close>
  the client library keeps its default host). Whenever \<open>UpdateContextConfig\<close> succeeds,
  the next \<open>getClient\<close> for the name returns a client bound to the new host, and not the
  client the registry held before; it does succeed when the client can be built and the
  file written. When the client cannot be built, the caller gets the error, and neither
  the registry nor the file has changed. That is the only failure of the endpoint the
  update reports: it makes no call on the new client, so its outcome is the same
  whatever the backend would answer.
\<close>

theorem UpdateContextConfig_current_rebinds:
  assumes st: "store w = Doc config"
    and cur: "as_string (map_of config ''current-context'') = Some name"
    and cs: "as_map (map_of config ''contexts'') = Some contexts"
    and ex: "map_of contexts name \<noteq> None"
    and host: "Host cfg \<noteq> []"
    and wf: "wf_world w"
  shows "(\<forall>w'. UpdateContextConfig name cfg w = (None, w') \<longrightarrow>
            (\<exists>cli. getClient name w' = (Inr cli, w') \<and> bound_host cli = Host cfg
                   \<and> clients w name \<noteq> Some cli))
       \<and> (new_ok w (Host cfg) \<and> writable w \<longrightarrow> fst (UpdateContextConfig name cfg w) = None)
       \<and> (\<not> new_ok w (Host cfg) \<longrightarrow>
            (\<exists>w'. UpdateContextConfig name cfg w = (Some ClientError, w')
                  \<and> clients w' = clients w \<and> store w' = store w))
       \<and> (\<forall>r. fst (UpdateContextConfig name cfg (w\<lparr>remote_ok := r\<rparr>))
                = fst (UpdateContextConfig name cfg w))"
proof (cases "new_ok w (Host cfg)")
  case False
  note f = UpdateContextConfig_current_fail [OF st cur cs ex host False]
  have a: "\<forall>w'. UpdateContextConfig name cfg w = (None, w') \<longrightarrow>
            (\<exists>cli. getClient name w' = (Inr cli, w') \<and> bound_host cli = Host cfg
                   \<and> clients w name \<noteq> Some cli)"
    by (simp add: f)
  have c: "\<exists>w'. UpdateContextConfig name cfg w = (Some ClientError, w')
                  \<and> clients w' = clients w \<and> store w' = store w"
    by (rule exI [of _ "Setenv_DOCKER_HOST (Host cfg) w"]) (simp add: f)
  have d: "fst (UpdateContextConfig name cfg (w\<lparr>remote_ok := r\<rparr>))
                = fst (UpdateContextConfig name cfg w)" for r
  proof -
    from st have st': "store (w\<lparr>remote_ok := r\<rparr>) = Doc config" by simp
    from False have bad': "\<not> new_ok (w\<lparr>remote_ok := r\<rparr>) (Host cfg)" by simp
    show ?thesis
      by (simp add: f UpdateContextConfig_current_fail [OF st' cur cs ex host bad'])
  qed
  from a c d False show ?thesis by simp
next
  case True
  let ?cli = "\<lparr>cid = created w, bound_host = Host cfg\<rparr>"
  let ?doc = "AList.update ''contexts'' (JObj (AList.update name (contextEntry cfg) contexts)) config"
  let ?W = "cacheClient name ?cli (emit (EvNewClient ?cli)
             ((Setenv_DOCKER_HOST (Host cfg) w)\<lparr>created := Suc (created w)\<rparr>))"
  note u = UpdateContextConfig_current_new [OF st cur cs ex host True]
  have stale: "clients w name \<noteq> Some ?cli"
  proof
    assume "clients w name = Some ?cli"
    with wf have "cid ?cli < created w" unfolding wf_world_def by blast
    then show False by simp
  qed
  have a: "\<exists>cli. getClient name w' = (Inr cli, w') \<and> bound_host cli = Host cfg
                   \<and> clients w name \<noteq> Some cli"
    if "UpdateContextConfig name cfg w = (None, w')" for w'
  proof -
    from that u have sv: "saveConfig ?doc ?W = (None, w')" by simp
    from saveConfig_result [OF sv] have "clients w' = clients ?W" by simp
    then have "clients w' name = Some ?cli" by simp
    then have "getClient name w' = (Inr ?cli, w')" by (rule getClient_cached)
    with stale show ?thesis by (intro exI [of _ ?cli] conjI) simp_all
  qed
  have b: "writable w \<Longrightarrow> fst (UpdateContextConfig name cfg w) = None"
    by (simp add: u saveConfig_def)
  have d: "fst (UpdateContextConfig name cfg (w\<lparr>remote_ok := r\<rparr>))
                = fst (UpdateContextConfig name cfg w)" for r
  proof -
    from st have st': "store (w\<lparr>remote_ok := r\<rparr>) = Doc config" by simp
    from True have ok': "new_ok (w\<lparr>remote_ok := r\<rparr>) (Host cfg)" by simp
    show ?thesis
      by (simp add: u UpdateContextConfig_current_new [OF st' cur cs ex host ok'] saveConfig_def)
  qed
  from a b d True show ?thesis by simp
qed

theorem UpdateContextConfig_current_rebinds_witness:
  "store prod_world = Doc prod_config
   \<and> as_string (map_of prod_config ''current-context'') = Some ''prod''
   \<and> Host prod_update \<noteq> [] \<and> wf_world prod_world
   \<and> new_ok prod_world (Host prod_update) \<and> writable prod_world
   \<and> fst (UpdateContextConfig ''prod'' prod_update prod_world) = None
   \<and> (\<exists>cli. fst (getClient ''prod'' (snd (UpdateContextConfig ''prod'' prod_update prod_world))) = Inr cli
          \<and> bound_host cli = ''tcp://10.0.0.6:2375'')"
proof -
  note t = UpdateContextConfig_current_rebinds [OF prod_world_fields(2) prod_config_lookups(4)
      prod_config_contexts prod_exists prod_update_fields(2) wf_prod_world]
  have ok: "new_ok prod_world (Host prod_update) \<and> writable prod_world"
    by (simp add: prod_world_fields)
  note r = t [THEN conjunct2, THEN conjunct1, THEN mp, OF ok]
  from r have e: "UpdateContextConfig ''prod'' prod_update prod_world =
      (None, snd (UpdateContextConfig ''prod'' prod_update prod_world))"
    by (cases "UpdateContextConfig ''prod'' prod_update prod_world") simp
  from t [THEN conjunct1, THEN spec, THEN mp, OF e] obtain cli where c:
    "getClient ''prod'' (snd (UpdateContextConfig ''prod'' prod_update prod_world))
       = (Inr cli, snd (UpdateContextConfig ''prod'' prod_update prod_world))"
    "bound_host cli = Host prod_update"
    by (elim exE conjE)
  have g: "\<exists>cli. fst (getClient ''prod'' (snd (UpdateContextConfig ''prod'' prod_update prod_world))) = Inr cli
          \<and> bound_host cli = ''tcp://10.0.0.6:2375''"
    by (rule exI [of _ cli]) (simp add: c prod_update_fields(1))
  show ?thesis
    using ok
    by (intro conjI prod_world_fields(2) prod_config_lookups(4) prod_update_fields(2) wf_prod_world r g)
       simp_all
qed

text \<open>The claim as stated fails: on a world where the client for the new host of \<^verbatim>\<open>prod\<close>
  can be built but the backend refuses every call, the update succeeds and stores the
  client in the registry; the next \<open>CreateExec\<close> on the context gets that client and
  fails on it.\<close>

lemma dead_backend_world_fields:
  "store dead_backend_world = Doc prod_config" "new_ok dead_backend_world h"
  "writable dead_backend_world" "created dead_backend_world = 0"
  "remote_ok dead_backend_world = (\<lambda>k. False)"
  by (simp_all add: dead_backend_world_def prod_world_def)

lemma dead_updated_facts:
  "fst (UpdateContextConfig ''prod'' prod_update dead_backend_world) = None"
  "clients dead_updated ''prod'' = Some \<lparr>cid = 0, bound_host = ''tcp://10.0.0.6:2375''\<rparr>"
  "remote_ok dead_updated = (\<lambda>k. False)"
proof -
  note u = UpdateContextConfig_current_new [OF dead_backend_world_fields(1) prod_config_lookups(4)
      prod_config_contexts prod_exists prod_update_fields(2) dead_backend_world_fields(2)]
  show "fst (UpdateContextConfig ''prod'' prod_update dead_backend_world) = None"
    by (simp add: u saveConfig_def dead_backend_world_fields)
  show "clients dead_updated ''prod'' = Some \<lparr>cid = 0, bound_host = ''tcp://10.0.0.6:2375''\<rparr>"
    unfolding dead_updated_def
    by (simp add: u saveConfig_def dead_backend_world_fields prod_update_fields(1))
  show "remote_ok dead_updated = (\<lambda>k. False)"
    unfolding dead_updated_def
    by (simp add: u saveConfig_def dead_backend_world_fields)
qed

theorem UpdateContextConfig_caches_dead_handle_counterexample:
  "new_ok dead_backend_world (Host prod_update)
   \<and> fst (UpdateContextConfig ''prod'' prod_update dead_backend_world) = None
   \<and> clients dead_updated ''prod'' = Some \<lparr>cid = 0, bound_host = ''tcp://10.0.0.6:2375''\<rparr>
   \<and> fst (CreateExec ''prod'' ''c1'' dead_updated) = Inl RemoteError"
proof -
  have c: "fst (CreateExec ''prod'' ''c1'' dead_updated) = Inl RemoteError"
    by (simp add: CreateExec_def getClient_def dead_updated_facts(2,3) remote_call_def)
  show ?thesis
    by (intro conjI dead_backend_world_fields(2) dead_updated_facts(1) dead_updated_facts(2) c)
qed

text \<open>The invariant assumed above holds in the world of a new service, whose registry is
  empty, and every operation keeps it.\<close>

lemma wf_world_empty: "clients w = Map.empty \<Longrightarrow> wf_world w"
  by (simp add: wf_world_def)

lemma wf_worldD: "wf_world w \<Longrightarrow> clients w n = Some c \<Longrightarrow> cid c < created w"
  by (simp add: wf_world_def)

lemma getClient_created_mono: "created w \<le> created (snd (getClient n w))"
proof (cases "clients w n")
  case (Some cli)
  then show ?thesis by (simp add: getClient_def)
next
  case None
  obtain r0 w0 where rc: "readConfig w = (r0, w0)" by (cases "readConfig w")
  have c0: "created w0 = created w"
    using rc by (auto simp: readConfig_def split: cfg_file.splits if_splits)
  from None rc c0 show ?thesis
    by (auto simp: getClient_def NewClientWithOpts_def Let_def split: sum.splits if_splits)
qed

lemma wf_world_getClient:
  assumes "wf_world w"
  shows "wf_world (snd (getClient n w))"
proof (cases "clients w n")
  case (Some cli)
  with assms show ?thesis by (simp add: getClient_def)
next
  case None
  obtain r w1 where g: "getClient n w = (r, w1)" by (cases "getClient n w")
  then have s: "snd (getClient n w) = w1" by simp
  show ?thesis
  proof (cases r)
    case (Inl e)
    with g have "getClient n w = (Inl e, w1)" by simp
    from getClient_failure_clients [OF this]
    have c: "clients w1 = clients w" by (rule conjunct1)
    from getClient_created_mono [of w n] s have m: "created w \<le> created w1" by simp
    show ?thesis
      unfolding s wf_world_def
    proof (intro allI impI)
      fix k c'
      assume "clients w1 k = Some c'"
      with c have "clients w k = Some c'" by simp
      with assms have "cid c' < created w" by (rule wf_worldD)
      with m show "cid c' < created w1" by simp
    qed
  next
    case (Inr cli)
    with g have gi: "getClient n w = (Inr cli, w1)" by simp
    from getClient_fresh_created [OF None gi]
    have cr: "created w1 = Suc (created w)" and ci: "cid cli = created w" by simp_all
    have cl: "clients w1 k = (if k = n then Some cli else clients w k)" for k
    proof -
      obtain r0 w0 where rc: "readConfig w = (r0, w0)" by (cases "readConfig w")
      have c0: "clients w0 = clients w" using readConfig_clients [of w] rc by simp
      from gi None rc c0 show ?thesis
        by (auto simp: getClient_def NewClientWithOpts_def Let_def
            split: sum.splits if_splits)
    qed
    show ?thesis
      unfolding s wf_world_def
    proof (intro allI impI)
      fix k c'
      assume a: "clients w1 k = Some c'"
      show "cid c' < created w1"
      proof (cases "k = n")
        case True
        with a cl [of k] ci cr show ?thesis by simp
      next
        case False
        with a cl [of k] have "clients w k = Some c'" by simp
        with assms have "cid c' < created w" by (rule wf_worldD)
        with cr show ?thesis by simp
      qed
    qed
  qed
qed

lemma wf_world_DeleteContext: "wf_world w \<Longrightarrow> wf_world (snd (DeleteContext n w))"
  using DeleteContext_no_client [of n w] by (simp add: wf_world_def)

lemma wf_world_UpdateContextConfig:
  "wf_world w \<Longrightarrow> wf_world (snd (UpdateContextConfig n cfg w))"
  by (auto simp: wf_world_def UpdateContextConfig_def readConfig_def saveConfig_def
      NewClientFromEnv_def NewClientWithOpts_def Let_def less_Suc_eq
      split: cfg_file.splits option.splits if_splits)

subsection \<open>The order of persistence and client construction\<close>

lemma getClient_created_from_store:
  assumes none: "clients w name = None" and get: "getClient name w = (Inr cli, w')"
  shows "\<exists>config. store w' = Doc config \<and> lookupHost name config = Inr (bound_host cli)"
proof (cases "store w")
  case Absent
  with none get show ?thesis
    by (simp add: getClient_def readConfig_def lookupHost_defaultConfig split: if_splits)
next
  case Unreadable
  with none get show ?thesis by (simp add: getClient_def readConfig_def)
next
  case (Doc config)
  show ?thesis
  proof (cases "lookupHost name config")
    case (Inl e)
    with none get Doc show ?thesis by (simp add: getClient_def readConfig_def)
  next
    case (Inr host)
    show ?thesis
    proof (cases "new_ok w host")
      case False
      with none get Doc Inr show ?thesis
        by (simp add: getClient_def readConfig_def NewClientWithOpts_def)
    next
      case True
      have "(Inr cli, w') = (Inr \<lparr>cid = created w, bound_host = host\<rparr>,
               cacheClient name \<lparr>cid = created w, bound_host = host\<rparr>
               (emit (EvNewClient \<lparr>cid = created w, bound_host = host\<rparr>) (w\<lparr>created := Suc (created w)\<rparr>)))"
        using getClient_fresh [OF none Doc Inr True] get by simp
      then have "cli = \<lparr>cid = created w, bound_host = host\<rparr>"
        and "w' = cacheClient name \<lparr>cid = created w, bound_host = host\<rparr>
               (emit (EvNewClient \<lparr>cid = created w, bound_host = host\<rparr>) (w\<lparr>created := Suc (created w)\<rparr>))"
        by simp_all
      with Doc Inr show ?thesis by (intro exI [of _ config]) simp
    qed
  qed
qed

text \<open>
  Claim C8, as the code has it. A client that \<open>getClient\<close> builds is built from an entry
  that is in the stored document. \<open>UpdateContextConfig\<close> on the current context works the
  other way round: it sets the variable, builds the client, stores it in the registry,
  and writes the document last. On another context it builds no client, and neither
  does \<open>DeleteContext\<close>.
\<close>

theorem handle_creation_and_persistence:
  "(clients w name = None \<and> getClient name w = (Inr cli, w') \<longrightarrow>
      (\<exists>config. store w' = Doc config \<and> lookupHost name config = Inr (bound_host cli)))
   \<and> (store w = Doc config \<and> as_string (map_of config ''current-context'') = Some name
        \<and> as_map (map_of config ''contexts'') = Some contexts \<and> map_of contexts name \<noteq> None
        \<and> Host cfg \<noteq> [] \<and> new_ok w (Host cfg) \<and> writable w \<longrightarrow>
      log (snd (UpdateContextConfig name cfg w)) =
        log w @ [EvSetenv (Host cfg),
                 EvNewClient \<lparr>cid = created w, bound_host = Host cfg\<rparr>,
                 EvCache name \<lparr>cid = created w, bound_host = Host cfg\<rparr>,
                 EvWrite (AList.update ''contexts''
                    (JObj (AList.update name (contextEntry cfg) contexts)) config)])
   \<and> (store w = Doc config \<and> as_string (map_of config ''current-context'') \<noteq> Some name \<longrightarrow>
        clients (snd (UpdateContextConfig name cfg w)) = clients w
        \<and> created (snd (UpdateContextConfig name cfg w)) = created w)
   \<and> clients (snd (DeleteContext name w)) = clients w
   \<and> created (snd (DeleteContext name w)) = created w"
proof (intro conjI impI)
  assume "clients w name = None \<and> getClient name w = (Inr cli, w')"
  then show "\<exists>config. store w' = Doc config \<and> lookupHost name config = Inr (bound_host cli)"
    using getClient_created_from_store by (elim conjE)
next
  assume a: "store w = Doc config \<and> as_string (map_of config ''current-context'') = Some name
        \<and> as_map (map_of config ''contexts'') = Some contexts \<and> map_of contexts name \<noteq> None
        \<and> Host cfg \<noteq> [] \<and> new_ok w (Host cfg) \<and> writable w"
  show "log (snd (UpdateContextConfig name cfg w)) =
        log w @ [EvSetenv (Host cfg),
                 EvNewClient \<lparr>cid = created w, bound_host = Host cfg\<rparr>,
                 EvCache name \<lparr>cid = created w, bound_host = Host cfg\<rparr>,
                 EvWrite (AList.update ''contexts''
                    (JObj (AList.update name (contextEntry cfg) contexts)) config)]"
    using a by (intro UpdateContextConfig_current_log) simp_all
next
  assume a: "store w = Doc config \<and> as_string (map_of config ''current-context'') \<noteq> Some name"
  from a UpdateContextConfig_noncurrent_no_client [of w config name cfg]
  show "clients (snd (UpdateContextConfig name cfg w)) = clients w" by (elim conjE) simp
  from a UpdateContextConfig_noncurrent_no_client [of w config name cfg]
  show "created (snd (UpdateContextConfig name cfg w)) = created w" by (elim conjE) simp
next
  show "clients (snd (DeleteContext name w)) = clients w"
    using DeleteContext_no_client [of name w] by (elim conjE)
  show "created (snd (DeleteContext name w)) = created w"
    using DeleteContext_no_client [of name w] by (elim conjE)
qed

theorem handle_creation_and_persistence_witness:
  "clients prod_world ''staging'' = None
   \<and> getClient ''staging'' prod_world
       = (Inr \<lparr>cid = 0, bound_host = ''tcp://10.0.0.7:2375''\<rparr>, staging_cached)
   \<and> (\<exists>config. store staging_cached = Doc config
         \<and> lookupHost ''staging'' config = Inr ''tcp://10.0.0.7:2375'')
   \<and> store prod_world = Doc prod_config
   \<and> as_string (map_of prod_config ''current-context'') = Some ''prod''
   \<and> Host prod_update \<noteq> [] \<and> new_ok prod_world (Host prod_update) \<and> writable prod_world
   \<and> log (snd (UpdateContextConfig ''prod'' prod_update prod_world)) =
        [EvSetenv ''tcp://10.0.0.6:2375'',
         EvNewClient \<lparr>cid = 0, bound_host = ''tcp://10.0.0.6:2375''\<rparr>,
         EvCache ''prod'' \<lparr>cid = 0, bound_host = ''tcp://10.0.0.6:2375''\<rparr>,
         EvWrite (AList.update ''contexts''
            (JObj (AList.update ''prod'' (contextEntry prod_update)
               [(''staging'', JObj [(''type'', JStr ''tcp''), (''host'', JStr ''tcp://10.0.0.7:2375'')]),
                (''prod'', JObj [(''type'', JStr ''tcp''), (''host'', JStr ''tcp://10.0.0.5:2375'')])]))
            prod_config)]"
proof -
  note t = handle_creation_and_persistence [where w = prod_world and name = "''staging''"
      and cli = "\<lparr>cid = 0, bound_host = ''tcp://10.0.0.7:2375''\<rparr>" and w' = staging_cached]
  have n: "clients prod_world ''staging'' = None" by (simp add: prod_world_fields)
  have i: "\<exists>config. store staging_cached = Doc config
         \<and> lookupHost ''staging'' config = Inr ''tcp://10.0.0.7:2375''"
    using t [THEN conjunct1, THEN mp, OF conjI [OF n staging_cached_get]] by simp
  note t2 = handle_creation_and_persistence [where w = prod_world and name = "''prod''"
      and config = prod_config and cfg = prod_update]
  have h: "store prod_world = Doc prod_config \<and> as_string (map_of prod_config ''current-context'') = Some ''prod''
        \<and> as_map (map_of prod_config ''contexts'') = Some
            [(''staging'', JObj [(''type'', JStr ''tcp''), (''host'', JStr ''tcp://10.0.0.7:2375'')]),
             (''prod'', JObj [(''type'', JStr ''tcp''), (''host'', JStr ''tcp://10.0.0.5:2375'')])]
        \<and> map_of [(''staging'', JObj [(''type'', JStr ''tcp''), (''host'', JStr ''tcp://10.0.0.7:2375'')]),
             (''prod'', JObj [(''type'', JStr ''tcp''), (''host'', JStr ''tcp://10.0.0.5:2375'')])] ''prod'' \<noteq> None
        \<and> Host prod_update \<noteq> [] \<and> new_ok prod_world (Host prod_update) \<and> writable prod_world"
    by (intro conjI prod_world_fields(2,3,4) prod_config_lookups(4) prod_config_contexts
        prod_exists prod_update_fields(2))
  have l: "log (snd (UpdateContextConfig ''prod'' prod_update prod_world)) =
        [EvSetenv ''tcp://10.0.0.6:2375'',
         EvNewClient \<lparr>cid = 0, bound_host = ''tcp://10.0.0.6:2375''\<rparr>,
         EvCache ''prod'' \<lparr>cid = 0, bound_host = ''tcp://10.0.0.6:2375''\<rparr>,
         EvWrite (AList.update ''contexts''
            (JObj (AList.update ''prod'' (contextEntry prod_update)
               [(''staging'', JObj [(''type'', JStr ''tcp''), (''host'', JStr ''tcp://10.0.0.7:2375'')]),
                (''prod'', JObj [(''type'', JStr ''tcp''), (''host'', JStr ''tcp://10.0.0.5:2375'')])]))
            prod_config)]"
    using t2 [THEN conjunct2, THEN conjunct1, THEN mp, OF h]
    by (simp add: prod_world_fields prod_update_fields(1))
  show ?thesis
    by (intro conjI n staging_cached_get i prod_world_fields(2,3,4) prod_config_lookups(4)
        prod_update_fields(2) l)
qed

text \<open>The claim as stated fails: when the file cannot be written, the update of \<^verbatim>\<open>prod\<close>
  reports the write error, yet the registry already holds a client for the new host
  while the stored document still names the old one.\<close>

theorem UpdateContextConfig_caches_unsaved_counterexample:
  "fst (UpdateContextConfig ''prod'' prod_update readonly_world) = Some IOError
   \<and> clients (snd (UpdateContextConfig ''prod'' prod_update readonly_world)) ''prod''
       = Some \<lparr>cid = 0, bound_host = ''tcp://10.0.0.6:2375''\<rparr>
   \<and> store (snd (UpdateContextConfig ''prod'' prod_update readonly_world)) = Doc prod_config
   \<and> lookupHost ''prod'' prod_config = Inr ''tcp://10.0.0.5:2375''"
proof -
  note u = UpdateContextConfig_current_new [OF readonly_world_fields(2) prod_config_lookups(4)
      prod_config_contexts prod_exists prod_update_fields(2) readonly_world_fields(4)]
  have a: "fst (UpdateContextConfig ''prod'' prod_update readonly_world) = Some IOError"
    by (simp add: u saveConfig_def readonly_world_fields)
  have b: "clients (snd (UpdateContextConfig ''prod'' prod_update readonly_world)) ''prod''
       = Some \<lparr>cid = 0, bound_host = ''tcp://10.0.0.6:2375''\<rparr>"
    by (simp add: u saveConfig_def readonly_world_fields prod_update_fields(1))
  have c: "store (snd (UpdateContextConfig ''prod'' prod_update readonly_world)) = Doc prod_config"
    by (simp add: u saveConfig_def readonly_world_fields)
  show ?thesis by (intro conjI a b c prod_config_lookups(2))
qed

subsection \<open>Calls of \<open>getClient\<close> one after the other, and overlapping\<close>

text \<open>Run alone, the four statements are \<open>getClient\<close>.\<close>

lemma gc_steps_getClient:
  "run_schedule name [0, 0, 0, 0] ([GC_Check], w)
     = ([GC_Done (fst (getClient name w))], snd (getClient name w))"
proof (cases "clients w name")
  case (Some cli)
  then show ?thesis by (simp add: run_schedule_def step_thread_def getClient_def)
next
  case None
  obtain r w1 where rc: "readConfig w = (r, w1)" by (cases "readConfig w")
  show ?thesis
  proof (cases r)
    case (Inl e)
    with None rc show ?thesis by (simp add: run_schedule_def step_thread_def getClient_def)
  next
    case (Inr config)
    show ?thesis
    proof (cases "lookupHost name config")
      case (Inl e)
      with None rc Inr show ?thesis by (simp add: run_schedule_def step_thread_def getClient_def)
    next
      case hostr: (Inr host)
      obtain r2 w2 where nc: "NewClientWithOpts host w1 = (r2, w2)"
        by (cases "NewClientWithOpts host w1")
      show ?thesis
      proof (cases r2)
        case (Inl e)
        with None rc Inr hostr nc show ?thesis
          by (simp add: run_schedule_def step_thread_def getClient_def)
      next
        case (Inr cli)
        with None rc \<open>r = Inr config\<close> hostr nc show ?thesis
          by (simp add: run_schedule_def step_thread_def getClient_def)
      qed
    qed
  qed
qed

lemma getClients_cached:
  "clients w name = Some cli \<Longrightarrow> getClients name n w = (replicate n (Inr cli), w)"
  by (induction n) (simp_all add: getClient_def)

text \<open>
  Claim C3, as the code has it. When the registry holds no client for the name and a
  first \<open>getClient\<close> succeeds, any number of calls made one after the other return the
  client of the first call, one client has been built, and the registry holds it under
  the name. Nothing orders calls that overlap.
\<close>

theorem sequential_getClient_single_creation:
  assumes none: "clients w name = None" and get: "getClient name w = (Inr cli, w1)"
  shows "getClients name (Suc n) w = (replicate (Suc n) (Inr cli), w1)
       \<and> created w1 = Suc (created w)
       \<and> clients w1 name = Some cli"
proof -
  note c = getClient_success_cached [OF get]
  have "getClients name (Suc n) w = (replicate (Suc n) (Inr cli), w1)"
    by (simp add: get getClients_cached [OF c])
  with c getClient_fresh_created [OF none get] show ?thesis by simp
qed

theorem sequential_getClient_single_creation_witness:
  "clients prod_world ''staging'' = None
   \<and> getClient ''staging'' prod_world
        = (Inr \<lparr>cid = 0, bound_host = ''tcp://10.0.0.7:2375''\<rparr>, staging_cached)
   \<and> getClients ''staging'' 3 prod_world
        = ([Inr \<lparr>cid = 0, bound_host = ''tcp://10.0.0.7:2375''\<rparr>,
            Inr \<lparr>cid = 0, bound_host = ''tcp://10.0.0.7:2375''\<rparr>,
            Inr \<lparr>cid = 0, bound_host = ''tcp://10.0.0.7:2375''\<rparr>], staging_cached)
   \<and> created staging_cached = 1"
proof -
  have n: "clients prod_world ''staging'' = None" by (simp add: prod_world_fields)
  note t = sequential_getClient_single_creation [OF n staging_cached_get, of 2]
  from t have a: "getClients ''staging'' 3 prod_world
        = ([Inr \<lparr>cid = 0, bound_host = ''tcp://10.0.0.7:2375''\<rparr>,
            Inr \<lparr>cid = 0, bound_host = ''tcp://10.0.0.7:2375''\<rparr>,
            Inr \<lparr>cid = 0, bound_host = ''tcp://10.0.0.7:2375''\<rparr>], staging_cached)"
    by (simp add: numeral_3_eq_3)
  from t have b: "created staging_cached = 1" by (simp add: prod_world_fields(5))
  show ?thesis by (intro conjI n staging_cached_get a b)
qed

text \<open>Two overlapping calls that both look the name up before either stores its client
  each build one, and return different clients.\<close>

lemma racing_getClient:
  assumes none: "clients w name = None" and st: "store w = Doc config"
    and lk: "lookupHost name config = Inr host" and ok: "new_ok w host"
  shows "\<exists>w'. run_schedule name [0, 1, 0, 1, 0, 1, 0, 1] ([GC_Check, GC_Check], w) =
     ([GC_Done (Inr \<lparr>cid = created w, bound_host = host\<rparr>),
       GC_Done (Inr \<lparr>cid = Suc (created w), bound_host = host\<rparr>)], w')
     \<and> created w' = Suc (Suc (created w))
     \<and> clients w' name = Some \<lparr>cid = Suc (created w), bound_host = host\<rparr>"
  using assms
  by (simp add: run_schedule_def step_thread_def readConfig_def NewClientWithOpts_def Let_def)

text \<open>The claim as stated fails: two calls for \<^verbatim>\<open>prod\<close> on the example world, run in
  alternation, build two clients and return one each.\<close>

theorem concurrent_getClient_counterexample:
  "clients prod_world ''prod'' = None
   \<and> fst (run_schedule ''prod'' [0, 1, 0, 1, 0, 1, 0, 1] ([GC_Check, GC_Check], prod_world)) =
       [GC_Done (Inr \<lparr>cid = 0, bound_host = ''tcp://10.0.0.5:2375''\<rparr>),
        GC_Done (Inr \<lparr>cid = 1, bound_host = ''tcp://10.0.0.5:2375''\<rparr>)]
   \<and> created (snd (run_schedule ''prod'' [0, 1, 0, 1, 0, 1, 0, 1] ([GC_Check, GC_Check], prod_world))) = 2"
proof -
  have n: "clients prod_world ''prod'' = None" by (simp add: prod_world_fields)
  from racing_getClient [OF n prod_world_fields(2) prod_config_lookups(2) prod_world_fields(4)]
  obtain w' where r: "run_schedule ''prod'' [0, 1, 0, 1, 0, 1, 0, 1] ([GC_Check, GC_Check], prod_world) =
     ([GC_Done (Inr \<lparr>cid = created prod_world, bound_host = ''tcp://10.0.0.5:2375''\<rparr>),
       GC_Done (Inr \<lparr>cid = Suc (created prod_world), bound_host = ''tcp://10.0.0.5:2375''\<rparr>)], w')"
    "created w' = Suc (Suc (created prod_world))"
    by (elim exE conjE)
  have a: "fst (run_schedule ''prod'' [0, 1, 0, 1, 0, 1, 0, 1] ([GC_Check, GC_Check], prod_world)) =
       [GC_Done (Inr \<lparr>cid = 0, bound_host = ''tcp://10.0.0.5:2375''\<rparr>),
        GC_Done (Inr \<lparr>cid = 1, bound_host = ''tcp://10.0.0.5:2375''\<rparr>)]"
    by (simp only: r fst_conv prod_world_fields(5)) simp
  have b: "created (snd (run_schedule ''prod'' [0, 1, 0, 1, 0, 1, 0, 1] ([GC_Check, GC_Check], prod_world))) = 2"
    by (simp only: r snd_conv prod_world_fields(5) numeral_2_eq_2)
  show ?thesis by (intro conjI n a b)
qed

subsection \<open>The list of contexts\<close>

lemma rangeContexts_snd:
  "snd (rangeContexts cur es (c0, acc)) = acc @ others cur es"
  by (induction es arbitrary: c0 acc) (auto simp: Let_def split: option.splits)

lemma rangeContexts_fst:
  "distinct (map fst es) \<Longrightarrow>
   fst (rangeContexts cur es (c0, acc)) =
     (case as_map (map_of es cur) of None \<Rightarrow> c0 | Some cc \<Rightarrow> Some (mkContextConfig cur cur cc))"
proof (induction es arbitrary: c0 acc)
  case Nil
  then show ?case by simp
next
  case (Cons e es)
  obtain n v where e: "e = (n, v)" by (cases e)
  from Cons.prems e have d: "distinct (map fst es)" and nin: "n \<notin> fst ` set es" by auto
  show ?case
  proof (cases "n = cur")
    case True
    with nin have "map_of es cur = None" by (simp add: map_of_eq_None_iff)
    with True e Cons.IH [OF d] show ?thesis
      by (auto simp: Let_def split: option.splits)
  next
    case False
    with e Cons.IH [OF d] show ?thesis
      by (auto simp: Let_def split: option.splits)
  qed
qed

lemma as_map_Some_iff: "as_map (Some v) = Some cc \<longleftrightarrow> v = JObj cc"
  by (cases v) auto

lemma set_others:
  "set (others cur es) = {mkContextConfig cur n cc | n cc. n \<noteq> cur \<and> (n, JObj cc) \<in> set es}"
proof (induction es)
  case Nil
  then show ?case by simp
next
  case (Cons e es)
  obtain n v where e: "e = (n, v)" by (cases e)
  show ?case
  proof (cases "as_map (Some v)")
    case None
    then have "\<And>cc. v \<noteq> JObj cc" by auto
    with None e Cons.IH show ?thesis by auto
  next
    case (Some cc)
    then have v: "v = JObj cc" by (simp add: as_map_Some_iff)
    with e Cons.IH show ?thesis by auto
  qed
qed

lemma Name_mkContextConfig [simp]: "Name (mkContextConfig cur n cc) = n"
  and Current_mkContextConfig [simp]: "Current (mkContextConfig cur n cc) = (n = cur)"
  by (simp_all add: mkContextConfig_def)

lemma names_others_subset: "set (map Name (others cur es)) \<subseteq> fst ` set es"
  by (force simp: set_others)

lemma distinct_names_others:
  "distinct (map fst es) \<Longrightarrow> distinct (map Name (others cur es))"
proof (induction es)
  case Nil
  then show ?case by simp
next
  case (Cons e es)
  obtain n v where e: "e = (n, v)" by (cases e)
  from Cons.prems e have d: "distinct (map fst es)" and nin: "n \<notin> fst ` set es" by auto
  from nin names_others_subset [of cur es] have "n \<notin> set (map Name (others cur es))" by blast
  with e Cons.IH [OF d] show ?case by (auto split: option.splits)
qed

lemma distinct_map_sort_key:
  "distinct (map f (sort_key f xs)) = distinct (map f xs)"
  by (induction xs) (simp_all add: distinct_insort_key)

lemma strict_sorted_sort_key:
  fixes f :: "'a \<Rightarrow> 'b::linorder"
  assumes "distinct (map f xs)"
  shows "sorted_wrt (<) (map f (sort_key f xs))"
  using assms by (simp add: strict_sorted_iff distinct_map_sort_key)

lemma others_not_current: "c \<in> set (others cur es) \<Longrightarrow> \<not> Current c \<and> Name c \<noteq> cur"
  by (auto simp: set_others)

text \<open>
  Claim C10. Let the configuration be readable with an object under \<^verbatim>\<open>contexts\<close>, and
  let \<open>visit\<close> be any order in which the \<^verbatim>\<open>range\<close> statement may yield its entries. The
  contexts are the entries whose value is an object; the current name is the string
  under \<^verbatim>\<open>current-context\<close> (the empty string when there is none). Then \<open>ListContexts\<close>
  returns the current context first, when there is one, followed by the other contexts,
  each as stored, in strictly ascending order of their names; and an entry has its
  \<open>Current\<close> flag set exactly when its name is the current name.
\<close>

theorem ListContexts_current_first:
  assumes rd: "readConfig w = (Inr config, w1)"
    and cm: "as_map (map_of config ''contexts'') = Some contextsMap"
    and vv: "valid_visit visit contextsMap"
  shows "\<exists>cs rest. ListContexts visit w = (Inr cs, w1)
      \<and> cs = (case as_map (map_of contextsMap (string_or_empty (map_of config ''current-context''))) of
                None \<Rightarrow> []
              | Some cc \<Rightarrow> [mkContextConfig (string_or_empty (map_of config ''current-context''))
                               (string_or_empty (map_of config ''current-context'')) cc]) @ rest
      \<and> sorted_wrt (<) (map Name rest)
      \<and> set rest = {mkContextConfig (string_or_empty (map_of config ''current-context'')) n cc | n cc.
                      n \<noteq> string_or_empty (map_of config ''current-context'')
                      \<and> map_of contextsMap n = Some (JObj cc)}
      \<and> (\<forall>c \<in> set cs. Current c \<longleftrightarrow> Name c = string_or_empty (map_of config ''current-context''))"
proof -
  let ?cur = "string_or_empty (map_of config ''current-context'')"
  let ?es = "visit contextsMap"
  let ?rest = "sort_key Name (others ?cur ?es)"
  let ?head = "case as_map (map_of contextsMap ?cur) of None \<Rightarrow> []
              | Some cc \<Rightarrow> [mkContextConfig ?cur ?cur cc]"
  from vv have d: "distinct (map fst ?es)" and m: "map_of ?es = map_of contextsMap"
    by (simp_all add: valid_visit_def)
  obtain c0 acc where rg: "rangeContexts ?cur ?es (None, []) = (c0, acc)"
    by (cases "rangeContexts ?cur ?es (None, [])")
  from rangeContexts_snd [of ?cur ?es None "[]"] rg have acc: "acc = others ?cur ?es" by simp
  from rangeContexts_fst [OF d, of ?cur None "[]"] rg m
  have c0: "c0 = (case as_map (map_of contextsMap ?cur) of None \<Rightarrow> None
                  | Some cc \<Rightarrow> Some (mkContextConfig ?cur ?cur cc))" by simp
  have res: "ListContexts visit w = (Inr (?head @ ?rest), w1)"
    using rd cm rg acc c0 by (simp add: ListContexts_def Let_def split: option.splits)
  have srt: "sorted_wrt (<) (map Name ?rest)"
    by (rule strict_sorted_sort_key) (rule distinct_names_others [OF d])
  have mem: "\<And>n cc. (n, JObj cc) \<in> set ?es \<longleftrightarrow> map_of contextsMap n = Some (JObj cc)"
    using d m by (metis map_of_eq_Some_iff)
  have st: "set ?rest = {mkContextConfig ?cur n cc | n cc.
                      n \<noteq> ?cur \<and> map_of contextsMap n = Some (JObj cc)}"
    by (simp add: set_others mem)
  have fl: "\<forall>c \<in> set (?head @ ?rest). Current c \<longleftrightarrow> Name c = ?cur"
    by (auto simp: set_others split: option.splits)
  show ?thesis
    by (intro exI [of _ "?head @ ?rest"] exI [of _ ?rest] conjI res refl srt st fl)
qed

lemma list_world_fields:
  "store list_world = Doc list_config" "clients list_world = Map.empty"
  by (simp_all add: list_world_def prod_world_def)

lemma list_config_parts:
  "as_map (map_of list_config ''contexts'') = Some
     [(''staging'', JObj [(''type'', JStr ''tcp''), (''host'', JStr ''tcp://10.0.0.7:2375'')]),
      (''prod'', JObj [(''type'', JStr ''tcp''), (''host'', JStr ''tcp://10.0.0.5:2375'')]),
      (''dev'', JObj [(''type'', JStr ''socket''), (''host'', JStr ''unix:///var/run/docker.sock'')])]"
  "string_or_empty (map_of list_config ''current-context'') = ''prod''"
  by (simp_all add: list_config_def string_or_empty_def)

lemma list_world_read: "readConfig list_world = (Inr list_config, list_world)"
  by (simp add: readConfig_def list_world_fields)

lemma string_order_examples: "\<not> ''staging'' \<le> ''dev''" "''dev'' \<le> ''staging''"
  by (simp_all add: less_eq_char_def less_char_def)

lemma mkContextConfig_entry:
  "mkContextConfig cur n [(''type'', JStr t), (''host'', JStr h)]
     = \<lparr>Name = n, Type = t, Host = h, Current = (n = cur)\<rparr>"
  by (simp add: mkContextConfig_def string_or_empty_def)

lemma list_world_range:
  "rangeContexts ''prod''
     [(''staging'', JObj [(''type'', JStr ''tcp''), (''host'', JStr ''tcp://10.0.0.7:2375'')]),
      (''prod'', JObj [(''type'', JStr ''tcp''), (''host'', JStr ''tcp://10.0.0.5:2375'')]),
      (''dev'', JObj [(''type'', JStr ''socket''), (''host'', JStr ''unix:///var/run/docker.sock'')])]
     (None, []) =
   (Some \<lparr>Name = ''prod'', Type = ''tcp'', Host = ''tcp://10.0.0.5:2375'', Current = True\<rparr>,
    [\<lparr>Name = ''staging'', Type = ''tcp'', Host = ''tcp://10.0.0.7:2375'', Current = False\<rparr>,
     \<lparr>Name = ''dev'', Type = ''socket'', Host = ''unix:///var/run/docker.sock'', Current = False\<rparr>])"
  by (simp add: mkContextConfig_entry Let_def)

lemma list_world_result:
  "ListContexts id list_world =
     (Inr [\<lparr>Name = ''prod'', Type = ''tcp'', Host = ''tcp://10.0.0.5:2375'', Current = True\<rparr>,
           \<lparr>Name = ''dev'', Type = ''socket'', Host = ''unix:///var/run/docker.sock'', Current = False\<rparr>,
           \<lparr>Name = ''staging'', Type = ''tcp'', Host = ''tcp://10.0.0.7:2375'', Current = False\<rparr>],
      list_world)"
  by (simp add: ListContexts_def list_world_read list_config_parts list_world_range
      string_order_examples Let_def mkContextConfig_entry)

lemma list_world_visit:
  "valid_visit id
     [(''staging'', JObj [(''type'', JStr ''tcp''), (''host'', JStr ''tcp://10.0.0.7:2375'')]),
      (''prod'', JObj [(''type'', JStr ''tcp''), (''host'', JStr ''tcp://10.0.0.5:2375'')]),
      (''dev'', JObj [(''type'', JStr ''socket''), (''host'', JStr ''unix:///var/run/docker.sock'')])]"
  by (simp add: valid_visit_def)

theorem ListContexts_current_first_witness:
  "readConfig list_world = (Inr list_config, list_world)
   \<and> ListContexts id list_world =
     (Inr [\<lparr>Name = ''prod'', Type = ''tcp'', Host = ''tcp://10.0.0.5:2375'', Current = True\<rparr>,
           \<lparr>Name = ''dev'', Type = ''socket'', Host = ''unix:///var/run/docker.sock'', Current = False\<rparr>,
           \<lparr>Name = ''staging'', Type = ''tcp'', Host = ''tcp://10.0.0.7:2375'', Current = False\<rparr>],
      list_world)
   \<and> (\<exists>cs rest. ListContexts id list_world = (Inr cs, list_world)
        \<and> cs = [mkContextConfig ''prod'' ''prod'' [(''type'', JStr ''tcp''), (''host'', JStr ''tcp://10.0.0.5:2375'')]] @ rest
        \<and> sorted_wrt (<) (map Name rest)
        \<and> (\<forall>c \<in> set cs. Current c \<longleftrightarrow> Name c = ''prod''))"
proof -
  from ListContexts_current_first [OF list_world_read list_config_parts(1) list_world_visit]
  obtain cs rest where r: "ListContexts id list_world = (Inr cs, list_world)"
    "cs = (case as_map (map_of
             [(''staging'', JObj [(''type'', JStr ''tcp''), (''host'', JStr ''tcp://10.0.0.7:2375'')]),
              (''prod'', JObj [(''type'', JStr ''tcp''), (''host'', JStr ''tcp://10.0.0.5:2375'')]),
              (''dev'', JObj [(''type'', JStr ''socket''), (''host'', JStr ''unix:///var/run/docker.sock'')])]
             (string_or_empty (map_of list_config ''current-context''))) of
                None \<Rightarrow> []
              | Some cc \<Rightarrow> [mkContextConfig (string_or_empty (map_of list_config ''current-context''))
                               (string_or_empty (map_of list_config ''current-context'')) cc]) @ rest"
    "sorted_wrt (<) (map Name rest)"
    "\<forall>c \<in> set cs. Current c \<longleftrightarrow> Name c = string_or_empty (map_of list_config ''current-context'')"
    by (elim exE conjE)
  from r(2) have c: "cs = [mkContextConfig ''prod'' ''prod'' [(''type'', JStr ''tcp''), (''host'', JStr ''tcp://10.0.0.5:2375'')]] @ rest"
    by (simp add: list_config_parts(2))
  from r(4) have f: "\<forall>c \<in> set cs. Current c \<longleftrightarrow> Name c = ''prod''"
    by (simp only: list_config_parts(2))
  have e: "\<exists>cs rest. ListContexts id list_world = (Inr cs, list_world)
        \<and> cs = [mkContextConfig ''prod'' ''prod'' [(''type'', JStr ''tcp''), (''host'', JStr ''tcp://10.0.0.5:2375'')]] @ rest
        \<and> sorted_wrt (<) (map Name rest)
        \<and> (\<forall>c \<in> set cs. Current c \<longleftrightarrow> Name c = ''prod'')"
    by (intro exI [of _ cs] exI [of _ rest] conjI r(1) c r(3) f)
  show ?thesis by (intro conjI list_world_read list_world_result e)
qed

section \<open>Properties of the session bridge\<close>

subsection \<open>The outbound pump\<close>

lemma WriteMessage_ok:
  "\<not> ws_closed s \<Longrightarrow> ws_ok s (length (ws_written s)) \<Longrightarrow>
   WriteMessage mt d s = (None, s\<lparr>ws_written := ws_written s @ [(mt, d)]\<rparr>)"
  by (simp add: WriteMessage_def)

lemma concat_filter_nonempty: "concat (filter (\<lambda>c. c \<noteq> []) xs) = concat xs"
  by (induction xs) simp_all

lemma outbound_pump_written:
  assumes "\<not> ws_closed s" and "\<forall>k. ws_ok s k"
  shows "ws_written (snd (outbound_pump rs s)) =
     ws_written s @ map (Pair BinaryMessage)
       (filter (\<lambda>c. c \<noteq> []) (map fst (takeWhile (\<lambda>r. snd r = None) rs)))"
  using assms
proof (induction rs arbitrary: s)
  case Nil
  then show ?case by simp
next
  case (Cons r rs)
  obtain chunk err where r: "r = (chunk, err)" by (cases r)
  show ?case
  proof (cases err)
    case (Some e)
    with r show ?thesis by (simp add: outbound_turn_def)
  next
    case None
    show ?thesis
    proof (cases "chunk = []")
      case True
      with r None Cons.IH [OF Cons.prems] show ?thesis by (simp add: outbound_turn_def)
    next
      case False
      let ?s' = "s\<lparr>ws_written := ws_written s @ [(BinaryMessage, chunk)]\<rparr>"
      from Cons.prems have w: "WriteMessage BinaryMessage chunk s = (None, ?s')"
        by (simp add: WriteMessage_ok)
      from Cons.prems have p: "\<not> ws_closed ?s'" "\<forall>k. ws_ok ?s' k" by simp_all
      from r None False w Cons.IH [OF p] show ?thesis by (simp add: outbound_turn_def)
    qed
  qed
qed

lemma consumed_clean:
  assumes "\<forall>r \<in> set rs. snd r \<noteq> None \<longrightarrow> fst r = []"
  shows "filter (\<lambda>c. c \<noteq> []) (map fst (consumed rs))
       = filter (\<lambda>c. c \<noteq> []) (map fst (takeWhile (\<lambda>r. snd r = None) rs))"
  using assms
proof (induction rs rule: consumed.induct)
  case 1
  then show ?case by simp
next
  case (2 chunk rs)
  then show ?case by simp
next
  case (3 chunk e rs)
  then show ?case by simp
qed

text \<open>
  When the operator connection is open and accepts every write, and no \<^verbatim>\<open>Read\<close> returns
  bytes together with an error, the frames the pump writes are binary frames, one for
  each non-empty chunk read, in the order read, none of them empty; and their payloads,
  concatenated, are the bytes the process stream delivered.
\<close>

theorem outbound_pump_forwards:
  assumes op: "\<not> ws_closed s" and ok: "\<forall>k. ws_ok s k"
    and clean: "\<forall>r \<in> set rs. snd r \<noteq> None \<longrightarrow> fst r = []"
  shows "\<exists>new. ws_written (snd (outbound_pump rs s)) = ws_written s @ new
     \<and> concat (map snd new) = concat (map fst (consumed rs))
     \<and> map snd new = filter (\<lambda>c. c \<noteq> []) (map fst (consumed rs))
     \<and> (\<forall>f \<in> set new. fst f = BinaryMessage \<and> snd f \<noteq> [])"
proof -
  let ?chunks = "filter (\<lambda>c. c \<noteq> []) (map fst (consumed rs))"
  let ?new = "map (Pair BinaryMessage) ?chunks"
  have a: "ws_written (snd (outbound_pump rs s)) = ws_written s @ ?new"
    by (simp add: outbound_pump_written [OF op ok] consumed_clean [OF clean])
  have m: "map snd ?new = ?chunks" by (simp add: comp_def)
  have b: "concat (map snd ?new) = concat (map fst (consumed rs))"
    by (simp only: m concat_filter_nonempty)
  have c: "\<forall>f \<in> set ?new. fst f = BinaryMessage \<and> snd f \<noteq> []" by auto
  show ?thesis by (intro exI [of _ ?new] conjI a b m c)
qed

text \<open>The loop looks at the error before it looks at the count: bytes returned
  together with an error are not forwarded.\<close>

lemma outbound_pump_error_read:
  "outbound_pump ((chunk, Some e) # rs) s = (Some e, s)"
  by (simp add: outbound_turn_def)

text \<open>A write the operator connection refuses ends the pump: the chunk is not forwarded
  and the error goes to \<^verbatim>\<open>errChan\<close>.\<close>

lemma outbound_pump_write_fails:
  assumes "ws_closed s \<or> \<not> ws_ok s (length (ws_written s))" and "chunk \<noteq> []"
  shows "outbound_pump ((chunk, None) # rs) s = (Some NetError, s)"
  using assms by (auto simp: outbound_turn_def WriteMessage_def)

lemma live_session_fields:
  "svc live_session = live_world" "ws_written live_session = []" "\<not> ws_closed live_session"
  "ws_ok live_session k" "h_written live_session = []"
  by (simp_all add: live_session_def)

lemma live_world_fields:
  "clients live_world ''prod'' = Some \<lparr>cid = 0, bound_host = ''tcp://10.0.0.5:2375''\<rparr>"
  "log live_world = [EvNewClient \<lparr>cid = 0, bound_host = ''tcp://10.0.0.5:2375''\<rparr>,
                     EvCache ''prod'' \<lparr>cid = 0, bound_host = ''tcp://10.0.0.5:2375''\<rparr>]"
  "\<not> remote_ok live_world k"
proof -
  have n: "clients prod_world ''prod'' = None" by (simp add: prod_world_fields)
  note g = getClient_fresh [OF n prod_world_fields(2) prod_config_lookups(2) prod_world_fields(4)]
  show "clients live_world ''prod'' = Some \<lparr>cid = 0, bound_host = ''tcp://10.0.0.5:2375''\<rparr>"
    by (simp add: live_world_def g prod_world_fields)
  show "log live_world = [EvNewClient \<lparr>cid = 0, bound_host = ''tcp://10.0.0.5:2375''\<rparr>,
                     EvCache ''prod'' \<lparr>cid = 0, bound_host = ''tcp://10.0.0.5:2375''\<rparr>]"
    by (simp add: live_world_def g prod_world_fields)
  show "\<not> remote_ok live_world k" by (simp add: live_world_def)
qed

theorem outbound_pump_forwards_witness:
  "\<not> ws_closed live_session \<and> (\<forall>k. ws_ok live_session k)
   \<and> consumed [(''he'', None), ([], None), (''llo'', None), ([], Some EOF), (''x'', None)]
        = [(''he'', None), ([], None), (''llo'', None), ([], Some EOF)]
   \<and> outbound_pump [(''he'', None), ([], None), (''llo'', None), ([], Some EOF), (''x'', None)]
        live_session
        = (Some EOF, live_session\<lparr>ws_written := [(BinaryMessage, ''he''), (BinaryMessage, ''llo'')]\<rparr>)
   \<and> (\<exists>new. ws_written (snd (outbound_pump
           [(''he'', None), ([], None), (''llo'', None), ([], Some EOF), (''x'', None)] live_session))
           = ws_written live_session @ new
        \<and> concat (map snd new) = ''hello'')"
proof -
  let ?rs = "[(''he'', None), ([], None), (''llo'', None), ([], Some EOF), (''x'', None)]
               :: read_result list"
  have op: "\<not> ws_closed live_session" by (simp add: live_session_fields)
  have ok: "\<forall>k. ws_ok live_session k" by (simp add: live_session_fields)
  have clean: "\<forall>r \<in> set ?rs. snd r \<noteq> None \<longrightarrow> fst r = []" by simp
  have cs: "consumed ?rs = [(''he'', None), ([], None), (''llo'', None), ([], Some EOF)]" by simp
  have run: "outbound_pump ?rs live_session
        = (Some EOF, live_session\<lparr>ws_written := [(BinaryMessage, ''he''), (BinaryMessage, ''llo'')]\<rparr>)"
    by (simp add: outbound_turn_def WriteMessage_def live_session_fields)
  from outbound_pump_forwards [OF op ok clean]
  obtain new where n: "ws_written (snd (outbound_pump ?rs live_session)) = ws_written live_session @ new"
    "concat (map snd new) = concat (map fst (consumed ?rs))"
    by (elim exE conjE)
  from n(2) have c: "concat (map snd new) = ''hello''" by (simp only: cs) simp
  have e: "\<exists>new. ws_written (snd (outbound_pump ?rs live_session)) = ws_written live_session @ new
        \<and> concat (map snd new) = ''hello''"
    by (intro exI [of _ new] conjI n(1) c)
  show ?thesis by (intro conjI op ok cs run e)
qed

lemma consumed_until_error:
  "\<forall>r \<in> set rs. snd r = None \<Longrightarrow>
   consumed (rs @ (chunk, Some e) # rest) = rs @ [(chunk, Some e)]"
  by (induction rs) auto

lemma takeWhile_until_error:
  "\<forall>r \<in> set rs. snd r = None \<Longrightarrow>
   takeWhile (\<lambda>r. snd r = None) (rs @ (chunk, Some e) # rest) = rs"
  by (induction rs) auto

text \<open>
  Claim C1. The loop falls short of it. \<^verbatim>\<open>Read\<close> may return bytes together with an error
  (the contract of \<^verbatim>\<open>io.Reader\<close> allows it, \<^verbatim>\<open>io.EOF\<close> with the last bytes of the stream
  being the common case), and the loop tests the error before it tests the count: it
  sends the error on \<^verbatim>\<open>errChan\<close> and returns without writing \<^verbatim>\<open>buf[:nr]\<close>. So with an open
  operator connection that accepts every write, after any reads that returned no error,
  a read that returns a non-empty chunk with an error makes the pump forward the bytes
  read before and lose the chunk: the payloads of the frames written are not the bytes
  the process stream delivered.
\<close>

theorem outbound_pump_drops_bytes_read_with_error:
  assumes op: "\<not> ws_closed s" and ok: "\<forall>k. ws_ok s k"
    and good: "\<forall>r \<in> set rs. snd r = None" and ne: "chunk \<noteq> []"
  shows "\<exists>new. ws_written (snd (outbound_pump (rs @ (chunk, Some e) # rest) s))
             = ws_written s @ new
     \<and> concat (map snd new) = concat (map fst rs)
     \<and> concat (map fst (consumed (rs @ (chunk, Some e) # rest))) = concat (map fst rs) @ chunk
     \<and> concat (map snd new) \<noteq> concat (map fst (consumed (rs @ (chunk, Some e) # rest)))"
proof -
  let ?chunks = "filter (\<lambda>c. c \<noteq> []) (map fst rs)"
  let ?new = "map (Pair BinaryMessage) ?chunks"
  have a: "ws_written (snd (outbound_pump (rs @ (chunk, Some e) # rest) s)) = ws_written s @ ?new"
    by (simp only: outbound_pump_written [OF op ok] takeWhile_until_error [OF good])
  have m: "map snd ?new = ?chunks" by (simp add: comp_def)
  have b: "concat (map snd ?new) = concat (map fst rs)"
    by (simp only: m concat_filter_nonempty)
  have c: "concat (map fst (consumed (rs @ (chunk, Some e) # rest))) = concat (map fst rs) @ chunk"
    by (simp add: consumed_until_error [OF good])
  have d: "concat (map snd ?new) \<noteq> concat (map fst (consumed (rs @ (chunk, Some e) # rest)))"
    unfolding b c using ne by simp
  show ?thesis by (intro exI [of _ ?new] conjI a b c d)
qed

theorem outbound_pump_drops_bytes_read_with_error_witness:
  "\<not> ws_closed live_session \<and> (\<forall>k. ws_ok live_session k)
   \<and> outbound_pump [(''he'', None), (''llo'', Some EOF)] live_session
        = (Some EOF, live_session\<lparr>ws_written := [(BinaryMessage, ''he'')]\<rparr>)
   \<and> concat (map fst (consumed [(''he'', None), (''llo'', Some EOF)])) = ''hello''
   \<and> (\<exists>new. ws_written (snd (outbound_pump [(''he'', None), (''llo'', Some EOF)] live_session))
           = ws_written live_session @ new
        \<and> concat (map snd new) = ''he'')"
proof -
  have op: "\<not> ws_closed live_session" by (simp add: live_session_fields)
  have ok: "\<forall>k. ws_ok live_session k" by (simp add: live_session_fields)
  have good: "\<forall>r \<in> set [(''he'', None :: error option)]. snd r = None" by simp
  have ne: "''llo'' \<noteq> []" by simp
  have run: "outbound_pump [(''he'', None), (''llo'', Some EOF)] live_session
        = (Some EOF, live_session\<lparr>ws_written := [(BinaryMessage, ''he'')]\<rparr>)"
    by (simp add: outbound_turn_def WriteMessage_def live_session_fields)
  have cs: "concat (map fst (consumed [(''he'', None), (''llo'', Some EOF)])) = ''hello''" by simp
  from outbound_pump_drops_bytes_read_with_error [OF op ok good ne, of EOF "[]"]
  obtain new where n:
    "ws_written (snd (outbound_pump ([(''he'', None)] @ (''llo'', Some EOF) # []) live_session))
       = ws_written live_session @ new"
    "concat (map snd new) = concat (map fst [(''he'', None :: error option)])"
    by (elim exE conjE)
  from n(1) have n1: "ws_written (snd (outbound_pump [(''he'', None), (''llo'', Some EOF)] live_session))
       = ws_written live_session @ new" by simp
  from n(2) have n2: "concat (map snd new) = ''he''" by simp
  have e: "\<exists>new. ws_written (snd (outbound_pump [(''he'', None), (''llo'', Some EOF)] live_session))
           = ws_written live_session @ new
        \<and> concat (map snd new) = ''he''"
    by (intro exI [of _ new] conjI n1 n2)
  show ?thesis by (intro conjI op ok run cs e)
qed

subsection \<open>The inbound pump\<close>

lemma log_getClient_no_resize:
  "filter is_resize (log (snd (getClient n w))) = filter is_resize (log w)"
proof (cases "clients w n")
  case (Some cli)
  then show ?thesis by (simp add: getClient_def)
next
  case None
  obtain r w1 where rc: "readConfig w = (r, w1)" by (cases "readConfig w")
  have l1: "filter is_resize (log w1) = filter is_resize (log w)"
    using rc by (auto simp: readConfig_def split: cfg_file.splits if_splits)
  show ?thesis
  proof (cases r)
    case (Inl e)
    with None rc l1 show ?thesis by (simp add: getClient_def)
  next
    case (Inr config)
    show ?thesis
    proof (cases "lookupHost n config")
      case (Inl e)
      with None rc Inr l1 show ?thesis by (simp add: getClient_def)
    next
      case hostr: (Inr host)
      show ?thesis
      proof (cases "new_ok w1 host")
        case False
        with None rc Inr hostr l1 show ?thesis
          by (simp add: getClient_def NewClientWithOpts_def)
      next
        case True
        with None rc Inr hostr l1 show ?thesis
          by (simp add: getClient_def NewClientWithOpts_def Let_def)
      qed
    qed
  qed
qed

lemma ResizeExec_calls:
  "length (filter is_resize (log (snd (ResizeExec n e h c w)))) =
     length (filter is_resize (log w)) + (if isl (fst (getClient n w)) then 0 else 1)"
proof -
  obtain r w1 where g: "getClient n w = (r, w1)" by (cases "getClient n w")
  from log_getClient_no_resize [of n w] g
  have l: "filter is_resize (log w1) = filter is_resize (log w)" by simp
  show ?thesis
  proof (cases r)
    case (Inl err)
    with g l show ?thesis by (simp add: ResizeExec_def)
  next
    case (Inr cli)
    with g l show ?thesis by (simp add: ResizeExec_def remote_call_def)
  qed
qed

lemma ResizeExec_cached:
  "clients w n = Some cli \<Longrightarrow>
   log (snd (ResizeExec n e h c w)) = log w @ [EvExecResize (cid cli) e (uint h) (uint c)]"
  by (simp add: ResizeExec_def getClient_def remote_call_def)

lemma inbound_turn_resize:
  assumes "unmarshal p = Some msg" and "msgType msg = ''resize''"
  shows "inbound_turn unmarshal n e (TextMessage, p, None) s =
     (None, (case fst (ResizeExec n e (msgRows msg) (msgCols msg) (svc s)) of
               None \<Rightarrow> s\<lparr>svc := snd (ResizeExec n e (msgRows msg) (msgCols msg) (svc s))\<rparr>
             | Some err \<Rightarrow> Printf ''Failed to resize terminal''
                 (s\<lparr>svc := snd (ResizeExec n e (msgRows msg) (msgCols msg) (svc s))\<rparr>)))"
  using assms
  by (simp add: inbound_turn_def split: prod.splits option.splits)

lemma svc_Printf [simp]: "svc (Printf l s) = svc s" "h_written (Printf l s) = h_written s"
  "ws_written (Printf l s) = ws_written s"
  by (simp_all add: Printf_def)

text \<open>Once \<open>CreateExec\<close> has succeeded, which every session with a running inbound pump has
  behind it, the registry holds a client for the context.\<close>

lemma CreateExec_caches:
  assumes "CreateExec n c w = (Inr eid, w')"
  shows "clients w' n \<noteq> None"
proof -
  obtain r w1 where g: "getClient n w = (r, w1)" by (cases "getClient n w")
  show ?thesis
  proof (cases r)
    case (Inl e)
    with assms g show ?thesis by (simp add: CreateExec_def)
  next
    case (Inr cli)
    with g have "clients w1 n = Some cli" by (simp add: getClient_success_cached)
    moreover from assms g Inr have "w' = snd (remote_call (EvExecCreate (cid cli) c) w1)"
      by (auto simp: CreateExec_def split: prod.splits option.splits)
    ultimately show ?thesis by simp
  qed
qed

text \<open>
  Claim C7. A text frame whose payload does not unmarshal is dropped: the turn of the
  loop changes nothing and the pump goes on with the next frame. A text frame that
  unmarshals to a \<^verbatim>\<open>resize\<close> message never ends the pump either, whatever the backend
  answers: the pump goes on with the next frame, nothing is written to the process
  stream or to the operator connection, and the backend has received one resize call
  more (none when the service finds no client for the context, which cannot happen
  once \<open>CreateExec\<close> has succeeded): with the client cached, the call carries the rows and
  columns of the message.
\<close>

theorem inbound_pump_tolerates:
  "(unmarshal p = None \<longrightarrow>
      inbound_turn unmarshal n e (TextMessage, p, None) s = (None, s)
      \<and> inbound_pump unmarshal n e ((TextMessage, p, None) # rest) s
          = inbound_pump unmarshal n e rest s)
   \<and> (unmarshal p = Some msg \<and> msgType msg = ''resize'' \<longrightarrow>
      (\<exists>s'. inbound_turn unmarshal n e (TextMessage, p, None) s = (None, s')
         \<and> inbound_pump unmarshal n e ((TextMessage, p, None) # rest) s
             = inbound_pump unmarshal n e rest s'
         \<and> resize_calls s' =
             resize_calls s + (if isl (fst (getClient n (svc s))) then 0 else 1)
         \<and> (\<forall>cli. clients (svc s) n = Some cli \<longrightarrow>
               log (svc s') = log (svc s)
                 @ [EvExecResize (cid cli) e (uint (msgRows msg)) (uint (msgCols msg))])
         \<and> h_written s' = h_written s \<and> ws_written s' = ws_written s))"
proof (intro conjI impI)
  assume u: "unmarshal p = None"
  then show t: "inbound_turn unmarshal n e (TextMessage, p, None) s = (None, s)"
    by (simp add: inbound_turn_def)
  then show "inbound_pump unmarshal n e ((TextMessage, p, None) # rest) s
          = inbound_pump unmarshal n e rest s" by simp
next
  assume a: "unmarshal p = Some msg \<and> msgType msg = ''resize''"
  let ?R = "ResizeExec n e (msgRows msg) (msgCols msg) (svc s)"
  let ?s' = "case fst ?R of None \<Rightarrow> s\<lparr>svc := snd ?R\<rparr>
             | Some err \<Rightarrow> Printf ''Failed to resize terminal'' (s\<lparr>svc := snd ?R\<rparr>)"
  from a have t: "inbound_turn unmarshal n e (TextMessage, p, None) s = (None, ?s')"
    by (simp add: inbound_turn_resize)
  have sv: "svc ?s' = snd ?R" by (simp split: option.splits)
  have hw: "h_written ?s' = h_written s" by (simp split: option.splits)
  have ww: "ws_written ?s' = ws_written s" by (simp split: option.splits)
  have rc: "resize_calls ?s' = resize_calls s + (if isl (fst (getClient n (svc s))) then 0 else 1)"
    unfolding resize_calls_def sv by (rule ResizeExec_calls)
  have lg: "\<forall>cli. clients (svc s) n = Some cli \<longrightarrow>
               log (svc ?s') = log (svc s)
                 @ [EvExecResize (cid cli) e (uint (msgRows msg)) (uint (msgCols msg))]"
    unfolding sv by (intro allI impI) (rule ResizeExec_cached)
  have pm: "inbound_pump unmarshal n e ((TextMessage, p, None) # rest) s
             = inbound_pump unmarshal n e rest ?s'"
    by (simp add: t)
  show "\<exists>s'. inbound_turn unmarshal n e (TextMessage, p, None) s = (None, s')
         \<and> inbound_pump unmarshal n e ((TextMessage, p, None) # rest) s
             = inbound_pump unmarshal n e rest s'
         \<and> resize_calls s' =
             resize_calls s + (if isl (fst (getClient n (svc s))) then 0 else 1)
         \<and> (\<forall>cli. clients (svc s) n = Some cli \<longrightarrow>
               log (svc s') = log (svc s)
                 @ [EvExecResize (cid cli) e (uint (msgRows msg)) (uint (msgCols msg))])
         \<and> h_written s' = h_written s \<and> ws_written s' = ws_written s"
    by (intro exI [of _ ?s'] conjI t pm rc lg hw ww)
qed

lemma example_unmarshal_values:
  "example_unmarshal ''garbage'' = None"
  "example_unmarshal ''{type:resize,rows:40,cols:120}''
     = Some \<lparr>msgType = ''resize'', msgData = [], msgCols = 120, msgRows = 40\<rparr>"
  by (simp_all add: example_unmarshal_def)

lemma live_resize_fails:
  "fst (ResizeExec ''prod'' ''exec-1'' 40 120 live_world) = Some RemoteError"
  by (simp add: ResizeExec_def getClient_def live_world_fields remote_call_def)

theorem inbound_pump_tolerates_witness:
  "example_unmarshal ''garbage'' = None
   \<and> inbound_pump example_unmarshal ''prod'' ''exec-1'' ((TextMessage, ''garbage'', None) # [])
        live_session = (None, live_session)
   \<and> example_unmarshal ''{type:resize,rows:40,cols:120}''
        = Some \<lparr>msgType = ''resize'', msgData = [], msgCols = 120, msgRows = 40\<rparr>
   \<and> fst (ResizeExec ''prod'' ''exec-1'' 40 120 live_world) = Some RemoteError
   \<and> (\<exists>s'. inbound_turn example_unmarshal ''prod'' ''exec-1''
              (TextMessage, ''{type:resize,rows:40,cols:120}'', None) live_session = (None, s')
         \<and> resize_calls s' = Suc (resize_calls live_session)
         \<and> h_written s' = h_written live_session)"
proof -
  note t1 = inbound_pump_tolerates [where unmarshal = example_unmarshal and p = "''garbage''"
      and n = "''prod''" and e = "''exec-1''" and s = live_session and rest = "[]",
      THEN conjunct1, THEN mp, OF example_unmarshal_values(1)]
  have a: "inbound_pump example_unmarshal ''prod'' ''exec-1'' ((TextMessage, ''garbage'', None) # [])
        live_session = (None, live_session)"
    using t1 by simp
  have h: "example_unmarshal ''{type:resize,rows:40,cols:120}''
        = Some \<lparr>msgType = ''resize'', msgData = [], msgCols = 120, msgRows = 40\<rparr>
      \<and> msgType \<lparr>msgType = ''resize'', msgData = [], msgCols = 120, msgRows = 40\<rparr> = ''resize''"
    by (simp add: example_unmarshal_values(2))
  from inbound_pump_tolerates [where unmarshal = example_unmarshal
      and p = "''{type:resize,rows:40,cols:120}''" and n = "''prod''" and e = "''exec-1''"
      and s = live_session and rest = "[]", THEN conjunct2, THEN mp, OF h]
  obtain s' where s': "inbound_turn example_unmarshal ''prod'' ''exec-1''
              (TextMessage, ''{type:resize,rows:40,cols:120}'', None) live_session = (None, s')"
    "resize_calls s' = resize_calls live_session
        + (if isl (fst (getClient ''prod'' (svc live_session))) then 0 else 1)"
    "h_written s' = h_written live_session"
    by (elim exE conjE)
  have g: "\<not> isl (fst (getClient ''prod'' (svc live_session)))"
    by (simp add: live_session_fields getClient_def live_world_fields)
  from s'(2) g have r: "resize_calls s' = Suc (resize_calls live_session)" by simp
  have e: "\<exists>s'. inbound_turn example_unmarshal ''prod'' ''exec-1''
              (TextMessage, ''{type:resize,rows:40,cols:120}'', None) live_session = (None, s')
         \<and> resize_calls s' = Suc (resize_calls live_session)
         \<and> h_written s' = h_written live_session"
    by (intro exI [of _ s'] conjI s'(1) r s'(3))
  show ?thesis
    by (intro conjI example_unmarshal_values a live_resize_fails e)
qed

subsection \<open>The handler and the order of its steps\<close>

lemma launch_order_main: "launch_order b \<Longrightarrow> launch_order (main_step n i b)"
  unfolding launch_order_def main_step_def
  by (cases "main_pc b")
     (auto split: prod.splits sum.splits option.splits list.splits)

lemma launch_order_outbound: "launch_order b \<Longrightarrow> launch_order (outbound_step b)"
  unfolding launch_order_def outbound_step_def
  by (auto split: prod.splits option.splits list.splits)

lemma launch_order_inbound: "launch_order b \<Longrightarrow> launch_order (inbound_step um n b)"
  unfolding launch_order_def inbound_step_def
  by (auto split: prod.splits option.splits list.splits)

lemma launch_order_step: "launch_order b \<Longrightarrow> launch_order (step um n i t b)"
  by (cases t) (simp_all add: step_def launch_order_main launch_order_outbound launch_order_inbound)

lemma launch_order_run: "launch_order b \<Longrightarrow> launch_order (run um n i sched b)"
  unfolding run_def
  by (induction sched arbitrary: b) (simp_all add: launch_order_step)

lemma launch_order_start: "launch_order (ExecContainer_start s rs ms)"
  by (simp add: launch_order_def ExecContainer_start_def)

lemma report_fields:
  "h_written (report l m s) = h_written s" "h_closed (report l m s) = h_closed s"
  "ws_closed (report l m s) = ws_closed s"
  "ws_written (report l m s) =
     ws_written s @ (if \<not> ws_closed s \<and> ws_ok s (length (ws_written s)) then [(TextMessage, m)] else [])"
  by (simp_all add: report_def WriteMessage_def Printf_def)

lemma main_step_start_fails:
  assumes pc: "main_pc b = M_StartExec"
    and f: "fst (StartExec n (execID b) (svc (sess b))) \<noteq> None"
  shows "main_step n i b =
     b\<lparr>sess := close_ws (close_h (report ''Failed to start exec'' ''Error starting exec''
               ((sess b)\<lparr>svc := snd (StartExec n (execID b) (svc (sess b)))\<rparr>))),
       main_pc := M_Returned StartFailed\<rparr>"
  using assms by (auto simp: main_step_def split: prod.splits option.splits)

text \<open>
  Claim C2, as the code has it. The handler starts both pumps before it calls
  \<^verbatim>\<open>StartExec\<close>: in every run, under every schedule, once the call has been issued both
  pumps have been launched. When the call fails, the handler prints the failure, writes
  an error text frame to the operator connection (if the connection still takes it) and
  returns, which closes the process stream and the operator connection; it writes
  nothing to the process stream. What the pumps have relayed by then stays relayed.
\<close>

theorem pumps_launched_before_start:
  "(start_issued (main_pc (run um n i sched (ExecContainer_start s rs ms))) \<longrightarrow>
      out_pc (run um n i sched (ExecContainer_start s rs ms)) \<noteq> NotStarted
      \<and> in_pc (run um n i sched (ExecContainer_start s rs ms)) \<noteq> NotStarted)
   \<and> (main_pc b = M_StartExec \<and> fst (StartExec n (execID b) (svc (sess b))) \<noteq> None \<longrightarrow>
        main_pc (main_step n i b) = M_Returned StartFailed
        \<and> h_closed (sess (main_step n i b)) \<and> ws_closed (sess (main_step n i b))
        \<and> h_written (sess (main_step n i b)) = h_written (sess b)
        \<and> ws_written (sess (main_step n i b)) =
            ws_written (sess b)
              @ (if \<not> ws_closed (sess b) \<and> ws_ok (sess b) (length (ws_written (sess b)))
                 then [(TextMessage, ''Error starting exec'')] else []))"
proof (intro conjI impI)
  let ?b = "run um n i sched (ExecContainer_start s rs ms)"
  assume si: "start_issued (main_pc ?b)"
  have "launch_order ?b" by (rule launch_order_run) (rule launch_order_start)
  with si show "out_pc ?b \<noteq> NotStarted" and "in_pc ?b \<noteq> NotStarted"
    by (simp_all add: launch_order_def)
next
  assume a: "main_pc b = M_StartExec \<and> fst (StartExec n (execID b) (svc (sess b))) \<noteq> None"
  then have pc: "main_pc b = M_StartExec"
    and f: "fst (StartExec n (execID b) (svc (sess b))) \<noteq> None" by simp_all
  note m = main_step_start_fails [OF pc f, of i]
  show "main_pc (main_step n i b) = M_Returned StartFailed" by (simp add: m)
  show "h_closed (sess (main_step n i b))" by (simp add: m close_ws_def close_h_def)
  show "ws_closed (sess (main_step n i b))" by (simp add: m close_ws_def close_h_def)
  show "h_written (sess (main_step n i b)) = h_written (sess b)"
    by (simp add: m close_ws_def close_h_def report_fields)
  show "ws_written (sess (main_step n i b)) =
            ws_written (sess b)
              @ (if \<not> ws_closed (sess b) \<and> ws_ok (sess b) (length (ws_written (sess b)))
                 then [(TextMessage, ''Error starting exec'')] else [])"
    by (simp add: m close_ws_def close_h_def report_fields)
qed

lemma CreateExec_fresh:
  assumes "getClient n w = (Inr cli, w1)" and "remote_ok w1 (length (log w1))"
  shows "CreateExec n c w = (Inr (exec_ids w1 (length (log w1))), emit (EvExecCreate (cid cli) c) w1)"
  using assms by (simp add: CreateExec_def remote_call_def)

lemma AttachExec_cached:
  "clients w n = Some cli \<Longrightarrow> AttachExec n e w = remote_call (EvExecAttach (cid cli) e) w"
  by (simp add: AttachExec_def getClient_def)

lemma StartExec_cached:
  "clients w n = Some cli \<Longrightarrow> StartExec n e w = remote_call (EvExecStart (cid cli) e) w"
  by (simp add: StartExec_def getClient_def)

lemma opening_world_fields:
  "clients opening_world = Map.empty"
  "store opening_world = Doc prod_config"
  "new_ok opening_world h"
  "created opening_world = 0"
  "log opening_world = []"
  "remote_ok opening_world = (\<lambda>k. k < 4)"
  "exec_ids opening_world k = ''exec-1''"
  by (simp_all add: opening_world_def prod_world_def)

lemma opening_created_facts:
  "CreateExec ''prod'' ''c1'' opening_world = (Inr ''exec-1'', opening_created)"
  "clients opening_created ''prod'' = Some \<lparr>cid = 0, bound_host = ''tcp://10.0.0.5:2375''\<rparr>"
  "length (log opening_created) = 3"
  "remote_ok opening_created = (\<lambda>k. k < 4)"
proof -
  define c0 where "c0 = \<lparr>cid = 0, bound_host = ''tcp://10.0.0.5:2375''\<rparr>"
  define wg where "wg = cacheClient ''prod'' c0
      (emit (EvNewClient c0) (opening_world\<lparr>created := Suc (created opening_world)\<rparr>))"
  have n0: "clients opening_world ''prod'' = None" by (simp add: opening_world_fields)
  have g: "getClient ''prod'' opening_world = (Inr c0, wg)"
    unfolding wg_def c0_def
    using getClient_fresh [OF n0 opening_world_fields(2) prod_config_lookups(2) opening_world_fields(3)]
    by (simp add: opening_world_fields)
  have wg: "log wg = [EvNewClient c0, EvCache ''prod'' c0]" "remote_ok wg = (\<lambda>k. k < 4)"
    "exec_ids wg k = ''exec-1''" "clients wg ''prod'' = Some c0" for k
    by (simp_all add: wg_def opening_world_fields)
  have ce: "CreateExec ''prod'' ''c1'' opening_world = (Inr ''exec-1'', emit (EvExecCreate (cid c0) ''c1'') wg)"
    using CreateExec_fresh [OF g, of "''c1''"] by (simp add: wg)
  have oc: "opening_created = emit (EvExecCreate (cid c0) ''c1'') wg"
    by (simp add: opening_created_def ce)
  show "CreateExec ''prod'' ''c1'' opening_world = (Inr ''exec-1'', opening_created)"
    by (simp add: ce oc)
  show "clients opening_created ''prod'' = Some \<lparr>cid = 0, bound_host = ''tcp://10.0.0.5:2375''\<rparr>"
    by (simp add: oc wg) (simp add: c0_def)
  show "length (log opening_created) = 3" by (simp add: oc wg)
  show "remote_ok opening_created = (\<lambda>k. k < 4)" by (simp add: oc wg)
qed

lemma opening_attached_facts:
  "AttachExec ''prod'' ''exec-1'' opening_created = (None, opening_attached)"
  "clients opening_attached ''prod'' = Some \<lparr>cid = 0, bound_host = ''tcp://10.0.0.5:2375''\<rparr>"
  "length (log opening_attached) = 4"
  "remote_ok opening_attached = (\<lambda>k. k < 4)"
  unfolding opening_attached_def AttachExec_cached [OF opening_created_facts(2)]
  by (simp_all add: prod_eq_iff opening_created_facts(2,3,4))

lemma opening_start_fails:
  "fst (StartExec ''prod'' ''exec-1'' opening_attached) = Some RemoteError"
  unfolding StartExec_cached [OF opening_attached_facts(2)]
  by (simp add: opening_attached_facts(3,4))

lemma opening_session_fields:
  "svc opening_session = opening_world" "h_written opening_session = []"
  "\<not> h_closed opening_session" "h_ok opening_session k" "\<not> ws_closed opening_session"
  "ws_ok opening_session k" "ws_written opening_session = []"
  by (simp_all add: opening_session_def)

lemma opening_run4:
  "run example_unmarshal ''prod'' ''c1'' [Main, Main, Main, Main]
       (ExecContainer_start opening_session [] first_input) =
      \<lparr>sess = opening_session\<lparr>svc := opening_attached\<rparr>, main_pc = M_StartExec,
       out_pc = Running, in_pc = Running, errChan = [], reads = [], messages = first_input,
       execID = ''exec-1'', client_done = False\<rparr>"
  by (simp add: run_def step_def main_step_def ExecContainer_start_def opening_session_fields(1)
      opening_created_facts(1) opening_attached_facts(1))

lemma first_input_turn:
  "inbound_turn example_unmarshal ''prod'' ''exec-1'' (TextMessage, ''{type:input,data:ls}'', None)
      (opening_session\<lparr>svc := opening_attached\<rparr>)
     = (None, opening_session\<lparr>svc := opening_attached, h_written := [''ls'']\<rparr>)"
proof -
  have um: "example_unmarshal ''{type:input,data:ls}''
      = Some \<lparr>msgType = ''input'', msgData = ''ls'', msgCols = 0, msgRows = 0\<rparr>"
    by (simp add: example_unmarshal_def)
  show ?thesis by (simp add: inbound_turn_def um Write_h_def opening_session_fields)
qed

lemma opening_run5:
  "run example_unmarshal ''prod'' ''c1'' [Main, Main, Main, Main, Inbound]
       (ExecContainer_start opening_session [] first_input) =
      \<lparr>sess = opening_session\<lparr>svc := opening_attached, h_written := [''ls'']\<rparr>,
       main_pc = M_StartExec, out_pc = Running, in_pc = Running, errChan = [], reads = [],
       messages = [], execID = ''exec-1'', client_done = False\<rparr>"
proof -
  have "run example_unmarshal ''prod'' ''c1'' [Main, Main, Main, Main, Inbound]
         (ExecContainer_start opening_session [] first_input) =
        step example_unmarshal ''prod'' ''c1'' Inbound
          (run example_unmarshal ''prod'' ''c1'' [Main, Main, Main, Main]
             (ExecContainer_start opening_session [] first_input))"
    by (simp add: run_def)
  also have "\<dots> = \<lparr>sess = opening_session\<lparr>svc := opening_attached, h_written := [''ls'']\<rparr>,
       main_pc = M_StartExec, out_pc = Running, in_pc = Running, errChan = [], reads = [],
       messages = [], execID = ''exec-1'', client_done = False\<rparr>"
    unfolding opening_run4
    by (simp add: step_def inbound_step_def opening_session_fields first_input_def first_input_turn)
  finally show ?thesis .
qed

lemma opening_run6:
  "run example_unmarshal ''prod'' ''c1'' [Main, Main, Main, Main, Inbound, Main]
       (ExecContainer_start opening_session [] first_input) =
   main_step ''prod'' ''c1''
     (run example_unmarshal ''prod'' ''c1'' [Main, Main, Main, Main, Inbound]
        (ExecContainer_start opening_session [] first_input))"
  by (simp add: run_def step_def)

lemma opening_run6_fields:
  "main_pc (run example_unmarshal ''prod'' ''c1'' [Main, Main, Main, Main, Inbound, Main]
       (ExecContainer_start opening_session [] first_input)) = M_Returned StartFailed"
  "h_written (sess (run example_unmarshal ''prod'' ''c1'' [Main, Main, Main, Main, Inbound, Main]
       (ExecContainer_start opening_session [] first_input))) = [''ls'']"
proof -
  obtain w3 where st: "StartExec ''prod'' ''exec-1'' opening_attached = (Some RemoteError, w3)"
    using opening_start_fails by (cases "StartExec ''prod'' ''exec-1'' opening_attached") simp
  show "main_pc (run example_unmarshal ''prod'' ''c1'' [Main, Main, Main, Main, Inbound, Main]
       (ExecContainer_start opening_session [] first_input)) = M_Returned StartFailed"
    unfolding opening_run6 opening_run5 by (simp add: main_step_def st)
  show "h_written (sess (run example_unmarshal ''prod'' ''c1'' [Main, Main, Main, Main, Inbound, Main]
       (ExecContainer_start opening_session [] first_input))) = [''ls'']"
    unfolding opening_run6 opening_run5
    by (simp add: main_step_def st close_ws_def close_h_def report_fields)
qed

theorem pumps_launched_before_start_witness:
  "start_issued (main_pc (run example_unmarshal ''prod'' ''c1'' [Main, Main, Main, Main, Inbound, Main]
       (ExecContainer_start opening_session [] first_input)))
   \<and> out_pc (run example_unmarshal ''prod'' ''c1'' [Main, Main, Main, Main, Inbound, Main]
       (ExecContainer_start opening_session [] first_input)) \<noteq> NotStarted
   \<and> in_pc (run example_unmarshal ''prod'' ''c1'' [Main, Main, Main, Main, Inbound, Main]
       (ExecContainer_start opening_session [] first_input)) \<noteq> NotStarted
   \<and> main_pc (run example_unmarshal ''prod'' ''c1'' [Main, Main, Main, Main, Inbound]
       (ExecContainer_start opening_session [] first_input)) = M_StartExec
   \<and> fst (StartExec ''prod'' ''exec-1'' opening_attached) \<noteq> None
   \<and> ws_written (sess (main_step ''prod'' ''c1''
        (run example_unmarshal ''prod'' ''c1'' [Main, Main, Main, Main, Inbound]
           (ExecContainer_start opening_session [] first_input))))
       = [(TextMessage, ''Error starting exec'')]
   \<and> h_closed (sess (main_step ''prod'' ''c1''
        (run example_unmarshal ''prod'' ''c1'' [Main, Main, Main, Main, Inbound]
           (ExecContainer_start opening_session [] first_input))))
   \<and> ws_closed (sess (main_step ''prod'' ''c1''
        (run example_unmarshal ''prod'' ''c1'' [Main, Main, Main, Main, Inbound]
           (ExecContainer_start opening_session [] first_input))))"
proof -
  let ?b5 = "run example_unmarshal ''prod'' ''c1'' [Main, Main, Main, Main, Inbound]
       (ExecContainer_start opening_session [] first_input)"
  let ?b6 = "run example_unmarshal ''prod'' ''c1'' [Main, Main, Main, Main, Inbound, Main]
       (ExecContainer_start opening_session [] first_input)"
  note t1 = pumps_launched_before_start [where um = example_unmarshal and n = "''prod''"
      and i = "''c1''" and sched = "[Main, Main, Main, Main, Inbound, Main]"
      and s = opening_session and rs = "[]" and ms = first_input, THEN conjunct1]
  note t2 = pumps_launched_before_start [where n = "''prod''" and i = "''c1''" and b = ?b5,
      THEN conjunct2]
  have si: "start_issued (main_pc ?b6)" by (simp add: opening_run6_fields(1))
  from t1 si have l: "out_pc ?b6 \<noteq> NotStarted \<and> in_pc ?b6 \<noteq> NotStarted" by (rule mp)
  have pc: "main_pc ?b5 = M_StartExec" by (simp add: opening_run5)
  have f: "fst (StartExec ''prod'' ''exec-1'' opening_attached) \<noteq> None"
    by (simp add: opening_start_fails)
  have f': "fst (StartExec ''prod'' (execID ?b5) (svc (sess ?b5))) \<noteq> None"
    by (simp add: opening_run5 opening_start_fails)
  from t2 pc f' have r: "main_pc (main_step ''prod'' ''c1'' ?b5) = M_Returned StartFailed
        \<and> h_closed (sess (main_step ''prod'' ''c1'' ?b5)) \<and> ws_closed (sess (main_step ''prod'' ''c1'' ?b5))
        \<and> h_written (sess (main_step ''prod'' ''c1'' ?b5)) = h_written (sess ?b5)
        \<and> ws_written (sess (main_step ''prod'' ''c1'' ?b5)) =
            ws_written (sess ?b5)
              @ (if \<not> ws_closed (sess ?b5) \<and> ws_ok (sess ?b5) (length (ws_written (sess ?b5)))
                 then [(TextMessage, ''Error starting exec'')] else [])"
    by (intro mp [OF t2] conjI)
  have ww: "ws_written (sess (main_step ''prod'' ''c1'' ?b5)) = [(TextMessage, ''Error starting exec'')]"
    using r by (simp add: opening_run5 opening_session_fields)
  note hc = r [THEN conjunct2, THEN conjunct1]
  note wc = r [THEN conjunct2, THEN conjunct2, THEN conjunct1]
  note l1 = l [THEN conjunct1]
  note l2 = l [THEN conjunct2]
  show ?thesis by (intro conjI si l1 l2 pc f ww hc wc)
qed

text \<open>The claim as stated fails: the inbound pump, launched before the call of
  \<^verbatim>\<open>StartExec\<close>, relays the operator's first input to the process stream while the
  handler has not yet issued the call; the call then fails, and the input has been
  relayed all the same.\<close>

theorem relay_before_start_counterexample:
  "main_pc (run example_unmarshal ''prod'' ''c1'' [Main, Main, Main, Main, Inbound]
       (ExecContainer_start opening_session [] first_input)) = M_StartExec
   \<and> h_written (sess (run example_unmarshal ''prod'' ''c1'' [Main, Main, Main, Main, Inbound]
       (ExecContainer_start opening_session [] first_input))) = [''ls'']
   \<and> main_pc (run example_unmarshal ''prod'' ''c1'' [Main, Main, Main, Main, Inbound, Main]
       (ExecContainer_start opening_session [] first_input)) = M_Returned StartFailed
   \<and> h_written (sess (run example_unmarshal ''prod'' ''c1'' [Main, Main, Main, Main, Inbound, Main]
       (ExecContainer_start opening_session [] first_input))) = [''ls'']"
proof (intro conjI)
  show "main_pc (run example_unmarshal ''prod'' ''c1'' [Main, Main, Main, Main, Inbound]
       (ExecContainer_start opening_session [] first_input)) = M_StartExec"
    by (simp add: opening_run5)
  show "h_written (sess (run example_unmarshal ''prod'' ''c1'' [Main, Main, Main, Main, Inbound]
       (ExecContainer_start opening_session [] first_input))) = [''ls'']"
    by (simp add: opening_run5)
qed (rule opening_run6_fields)+

end
